theory Spec2Isabelle
  imports Complex_Main "HOL-Library.Word"
begin

unbundle bit_operations_syntax

section \<open>JavaScript values\<close>

text \<open>
  A JavaScript string is a sequence of UTF-16 code units; it is modelled as the list of
  their numeric values. \<open>js\<close> writes an ASCII literal in that form. An exception is
  a value of \<open>js_error\<close>, and a function that can throw returns \<open>js_error + 'a\<close>.
\<close>

type_synonym jsstring = "nat list"

definition js :: "string \<Rightarrow> jsstring" where
  "js s = map of_char s"

datatype js_error = Error string

text \<open>
  A \<open>number\<close> is an IEEE double, modelled by the real it stands for. Comparisons and
  \<open>Math.round\<close> are exact on doubles; a division or a multiplication rounds its
  result to a double. These two operations are the fields of \<open>FloatOps\<close>, and
  \<open>near\<close> says that a computed value lies within the relative error \<open>1 / 2 ^ 53\<close> of
  the exact one, as every double operation does that neither overflows nor underflows.
  \<open>Math.round\<close> rounds to the nearest integer, a tie going towards plus infinity.
\<close>

record FloatOps =
  fdiv :: "real \<Rightarrow> real \<Rightarrow> real"
  fmul :: "real \<Rightarrow> real \<Rightarrow> real"

definition near :: "real \<Rightarrow> real \<Rightarrow> bool" where
  "near computed exact \<longleftrightarrow> \<bar>computed - exact\<bar> \<le> \<bar>exact\<bar> / 2 ^ 53"

definition exactOps :: FloatOps where
  "exactOps = \<lparr>fdiv = (/), fmul = (*)\<rparr>"

definition Math_round :: "real \<Rightarrow> real" where
  "Math_round x = of_int \<lfloor>x + 1 / 2\<rfloor>"

section \<open>docx-image-utils.ts\<close>

record 'a ImageDimensions =
  width :: 'a
  height :: 'a

subsection \<open>calculateImageDimensions\<close>

definition maxWidthInches :: real where
  "maxWidthInches = 6"

definition maxHeightInches :: real where
  "maxHeightInches = 19 / 2"

definition maxWidthPixels :: real where
  "maxWidthPixels = maxWidthInches * 96"

definition maxHeightPixels :: real where
  "maxHeightPixels = maxHeightInches * 96"

text \<open>
  The two products \<open>6 * 96\<close> and \<open>9.5 * 96\<close> are the doubles 576 and 912 exactly.
\<close>

definition calculateImageDimensions :: "FloatOps \<Rightarrow> real \<Rightarrow> real \<Rightarrow> real ImageDimensions" where
  "calculateImageDimensions fp originalWidth originalHeight =
     (if originalWidth \<le> maxWidthPixels \<and> originalHeight \<le> maxHeightPixels
      then \<lparr>width = originalWidth, height = originalHeight\<rparr>
      else
        let widthRatio = fdiv fp maxWidthPixels originalWidth;
            heightRatio = fdiv fp maxHeightPixels originalHeight;
            ratio = min widthRatio heightRatio
        in \<lparr>width = Math_round (fmul fp originalWidth ratio),
            height = Math_round (fmul fp originalHeight ratio)\<rparr>)"

subsection \<open>The document primitives built by the exporter\<close>

text \<open>
  The options objects handed to the constructors \<open>TextRun\<close>, \<open>ImageRun\<close> and
  \<open>Paragraph\<close> of the docx library; an option that a call site leaves out is \<open>None\<close>.
\<close>

record TextRunOptions =
  run_text :: jsstring
  run_font :: "jsstring option"
  run_size :: "real option"
  run_color :: "jsstring option"
  run_italics :: "bool option"
  run_break :: "nat option"

record AltText =
  alt_title :: jsstring
  alt_description :: jsstring
  alt_name :: jsstring

record ImageRunOptions =
  image_data :: "8 word list option"
  transformation :: "real ImageDimensions"
  image_type :: jsstring
  altText :: AltText

datatype AlignmentType = CENTER | RIGHT | LEFT

datatype run = TextRun TextRunOptions | ImageRun ImageRunOptions

record ParagraphOptions =
  children :: "run list"
  alignment :: "AlignmentType option"
  spacing :: "(nat \<times> nat) option"

datatype docx_element = Paragraph ParagraphOptions | Inline run

subsection \<open>convertPluginResultToDOCX\<close>

record RenderContent =
  content_data :: "8 word list option"
  content_width :: "real option"
  content_height :: "real option"
  content_text :: "jsstring option"

record RenderDisplay =
  display_inline :: bool
  display_alignment :: "jsstring option"

record UnifiedRenderResult =
  result_type :: jsstring
  content :: RenderContent
  display :: RenderDisplay

text \<open>\<open>x || 0\<close> on an optional number, \<open>x || ''\<close> on an optional string.\<close>

definition number_or_zero :: "real option \<Rightarrow> real" where
  "number_or_zero x = (case x of None \<Rightarrow> 0 | Some v \<Rightarrow> v)"

definition string_or :: "jsstring option \<Rightarrow> jsstring \<Rightarrow> jsstring" where
  "string_or x d = (case x of None \<Rightarrow> d | Some v \<Rightarrow> if v = [] then d else v)"

definition plainText :: "jsstring \<Rightarrow> TextRunOptions" where
  "plainText t = \<lparr>run_text = t, run_font = None, run_size = None, run_color = None,
     run_italics = None, run_break = None\<rparr>"

definition errorText :: "jsstring \<Rightarrow> TextRunOptions" where
  "errorText t = \<lparr>run_text = t, run_font = None, run_size = None,
     run_color = Some (js ''FF0000''), run_italics = Some True, run_break = None\<rparr>"

definition alignmentMap :: "jsstring \<Rightarrow> AlignmentType option" where
  "alignmentMap k =
     (if k = js ''center'' then Some CENTER
      else if k = js ''right'' then Some RIGHT
      else if k = js ''left'' then Some LEFT
      else None)"

definition convertPluginResultToDOCX ::
  "FloatOps \<Rightarrow> UnifiedRenderResult \<Rightarrow> jsstring \<Rightarrow> docx_element" where
  "convertPluginResultToDOCX fp renderResult pluginType =
     (if result_type renderResult = js ''empty'' then
        Paragraph \<lparr>children = [], alignment = None, spacing = None\<rparr>
      else if result_type renderResult = js ''error'' then
        (if display_inline (display renderResult)
         then Inline (TextRun (errorText (string_or (content_text (content renderResult)) [])))
         else Paragraph \<lparr>children =
                  [TextRun (errorText (string_or (content_text (content renderResult)) []))],
                alignment = Some LEFT, spacing = Some (240, 240)\<rparr>)
      else if result_type renderResult = js ''text'' then
        (let text = string_or (content_text (content renderResult)) []
         in if display_inline (display renderResult)
            then Inline (TextRun (plainText text))
            else Paragraph \<lparr>children = [TextRun (plainText text)],
                   alignment = Some LEFT, spacing = Some (240, 240)\<rparr>)
      else if result_type renderResult = js ''image'' then
        (let scaledWidth = Math_round (fdiv fp (number_or_zero (content_width (content renderResult))) 4);
             scaledHeight = Math_round (fdiv fp (number_or_zero (content_height (content renderResult))) 4);
             imageRun = ImageRun
               \<lparr>image_data = content_data (content renderResult),
                transformation = calculateImageDimensions fp scaledWidth scaledHeight,
                image_type = js ''png'',
                altText = \<lparr>alt_title = pluginType @ js '' Image'',
                            alt_description = pluginType @ js '' image'',
                            alt_name = pluginType @ js ''-image''\<rparr>\<rparr>
         in if display_inline (display renderResult) then Inline imageRun
            else Paragraph \<lparr>children = [imageRun],
                   alignment =
                     (case alignmentMap
                             (string_or (display_alignment (display renderResult)) (js ''center'')) of
                        Some a \<Rightarrow> Some a
                      | None \<Rightarrow> Some CENTER),
                   spacing = Some (240, 240)\<rparr>)
      else Paragraph \<lparr>children = [], alignment = None, spacing = None\<rparr>)"

subsection \<open>getImageDimensions\<close>

text \<open>
  \<open>bytes[o]\<close> on a \<open>Uint8Array\<close> is \<open>undefined\<close> out of range (here \<open>None\<close>);
  it never throws. Inside a bitwise expression the operand is converted to a 32-bit
  integer, \<open>undefined\<close> becoming 0, and \<open>>>> 0\<close> reads the result as unsigned.
\<close>

type_synonym byte = "8 word"

definition byteAt :: "byte list \<Rightarrow> nat \<Rightarrow> byte option" where
  "byteAt bytes o' = (if o' < length bytes then Some (bytes ! o') else None)"

definition toInt32 :: "byte option \<Rightarrow> 32 word" where
  "toInt32 b = (case b of None \<Rightarrow> 0 | Some v \<Rightarrow> ucast v)"

definition readU16LE :: "byte list \<Rightarrow> nat \<Rightarrow> int" where
  "readU16LE bytes o' =
     uint (toInt32 (byteAt bytes o') OR push_bit 8 (toInt32 (byteAt bytes (o' + 1))))"

definition readU16BE :: "byte list \<Rightarrow> nat \<Rightarrow> int" where
  "readU16BE bytes o' =
     uint (push_bit 8 (toInt32 (byteAt bytes o')) OR toInt32 (byteAt bytes (o' + 1)))"

definition readU32LE :: "byte list \<Rightarrow> nat \<Rightarrow> int" where
  "readU32LE bytes o' =
     uint (toInt32 (byteAt bytes o') OR push_bit 8 (toInt32 (byteAt bytes (o' + 1)))
           OR push_bit 16 (toInt32 (byteAt bytes (o' + 2)))
           OR push_bit 24 (toInt32 (byteAt bytes (o' + 3))))"

definition readU32BE :: "byte list \<Rightarrow> nat \<Rightarrow> int" where
  "readU32BE bytes o' =
     uint (push_bit 24 (toInt32 (byteAt bytes o')) OR push_bit 16 (toInt32 (byteAt bytes (o' + 1)))
           OR push_bit 8 (toInt32 (byteAt bytes (o' + 2)))
           OR toInt32 (byteAt bytes (o' + 3)))"

text \<open>The guards of the five branches, as the source writes them.\<close>

definition isPNG :: "byte list \<Rightarrow> bool" where
  "isPNG bytes \<longleftrightarrow> length bytes \<ge> 24 \<and> byteAt bytes 0 = Some 0x89 \<and> byteAt bytes 1 = Some 0x50
     \<and> byteAt bytes 2 = Some 0x4e \<and> byteAt bytes 3 = Some 0x47"

definition isGIF :: "byte list \<Rightarrow> bool" where
  "isGIF bytes \<longleftrightarrow> length bytes \<ge> 10 \<and> byteAt bytes 0 = Some 0x47 \<and> byteAt bytes 1 = Some 0x49
     \<and> byteAt bytes 2 = Some 0x46"

definition isBMP :: "byte list \<Rightarrow> bool" where
  "isBMP bytes \<longleftrightarrow> length bytes \<ge> 26 \<and> byteAt bytes 0 = Some 0x42 \<and> byteAt bytes 1 = Some 0x4d"

definition isJPEG :: "byte list \<Rightarrow> bool" where
  "isJPEG bytes \<longleftrightarrow> length bytes \<ge> 4 \<and> byteAt bytes 0 = Some 0xff \<and> byteAt bytes 1 = Some 0xd8"

definition isWEBP :: "byte list \<Rightarrow> bool" where
  "isWEBP bytes \<longleftrightarrow> length bytes \<ge> 30
     \<and> byteAt bytes 0 = Some 0x52 \<and> byteAt bytes 1 = Some 0x49
     \<and> byteAt bytes 2 = Some 0x46 \<and> byteAt bytes 3 = Some 0x46
     \<and> byteAt bytes 8 = Some 0x57 \<and> byteAt bytes 9 = Some 0x45
     \<and> byteAt bytes 10 = Some 0x42 \<and> byteAt bytes 11 = Some 0x50"

text \<open>The inner loop \<open>while (offset < bytes.length && bytes[offset] === 0xff) offset++\<close>.\<close>

function skipFill :: "byte list \<Rightarrow> nat \<Rightarrow> nat" where
  "skipFill bytes offset =
     (if offset < length bytes \<and> byteAt bytes offset = Some 0xff
      then skipFill bytes (offset + 1) else offset)"
  by pat_completeness auto
termination
  by (relation "measure (\<lambda>(bytes, offset). length bytes - offset)") auto

declare skipFill.simps [simp del]

definition isSOF :: "byte option \<Rightarrow> bool" where
  "isSOF marker =
     (case marker of None \<Rightarrow> False
      | Some m \<Rightarrow> (0xc0 \<le> m \<and> m \<le> 0xc3) \<or> (0xc5 \<le> m \<and> m \<le> 0xc7)
                \<or> (0xc9 \<le> m \<and> m \<le> 0xcb) \<or> (0xcd \<le> m \<and> m \<le> 0xcf))"

text \<open>
  The marker loop of the JPEG branch. \<open>None\<close> is leaving the loop without a result
  (\<open>break\<close>, or the loop condition failing); \<open>Some d\<close> is the \<open>return\<close> in the loop.
\<close>

function scanJPEG :: "byte list \<Rightarrow> nat \<Rightarrow> int ImageDimensions option" where
  "scanJPEG bytes offset =
     (if offset + 4 < length bytes then
        (if byteAt bytes offset \<noteq> Some 0xff then scanJPEG bytes (offset + 1)
         else
           let offset1 = skipFill bytes offset;
               marker = byteAt bytes offset1;
               offset2 = offset1 + 1
           in if marker = Some 0xd9 \<or> marker = Some 0xda then None
              else if offset2 + 1 \<ge> length bytes then None
              else
                let segmentLength = readU16BE bytes offset2
                in if segmentLength < 2 then None
                   else if isSOF marker \<and> offset2 + 7 < length bytes
                   then Some \<lparr>width = readU16BE bytes (offset2 + 5),
                              height = readU16BE bytes (offset2 + 3)\<rparr>
                   else scanJPEG bytes (offset2 + nat segmentLength))
      else None)"
  by pat_completeness auto
termination
proof (relation "measure (\<lambda>(bytes, offset). length bytes - offset)")
  show "wf (measure (\<lambda>(bytes :: byte list, offset). length bytes - offset))"
    by simp
next
  fix bytes :: "byte list" and offset :: nat
  assume "offset + 4 < length bytes"
  then show "((bytes, offset + 1), (bytes, offset)) \<in> measure (\<lambda>(bytes, offset). length bytes - offset)"
    by simp
next
  fix bytes :: "byte list" and offset x xa xb xc
  assume a: "offset + 4 < length bytes" "x = skipFill bytes offset" "xb = x + 1"
    "\<not> length bytes \<le> xb + 1"
  have "offset \<le> skipFill bytes offset"
  proof (induction bytes offset rule: skipFill.induct)
    case (1 bytes offset)
    show ?case
    proof (cases "offset < length bytes \<and> byteAt bytes offset = Some 0xff")
      case True
      with 1 have "offset + 1 \<le> skipFill bytes (offset + 1)" by simp
      moreover from True have "skipFill bytes offset = skipFill bytes (offset + 1)"
        by (subst skipFill.simps) simp
      ultimately show ?thesis by simp
    next
      case False
      then have "skipFill bytes offset = offset" by (subst skipFill.simps) auto
      then show ?thesis by simp
    qed
  qed
  then have "offset < xb + nat xc"
    using a by simp
  with a show "((bytes, xb + nat xc), (bytes, offset)) \<in> measure (\<lambda>(bytes, offset). length bytes - offset)"
    by simp
qed

declare scanJPEG.simps [simp del]

definition sniffWEBP :: "byte list \<Rightarrow> int ImageDimensions option" where
  "sniffWEBP bytes =
     (let chunkType = map (byteAt bytes) [12, 13, 14, 15]
      in if chunkType = map Some [0x56, 0x50, 0x38, 0x58] \<and> length bytes \<ge> 30 then
           let widthMinusOne = sint (toInt32 (byteAt bytes 24) OR push_bit 8 (toInt32 (byteAt bytes 25))
                                     OR push_bit 16 (toInt32 (byteAt bytes 26)));
               heightMinusOne = sint (toInt32 (byteAt bytes 27) OR push_bit 8 (toInt32 (byteAt bytes 28))
                                      OR push_bit 16 (toInt32 (byteAt bytes 29)))
           in Some \<lparr>width = widthMinusOne + 1, height = heightMinusOne + 1\<rparr>
         else if chunkType = map Some [0x56, 0x50, 0x38, 0x4c] \<and> length bytes \<ge> 25
                 \<and> byteAt bytes 20 = Some 0x2f then
           let bits = (word_of_int (readU32LE bytes 21) :: 32 word)
           in Some \<lparr>width = sint (bits AND 0x3fff) + 1,
                     height = sint (signed_drop_bit 14 bits AND 0x3fff) + 1\<rparr>
         else None)"

text \<open>
  The body of the \<open>try\<close> block: the branches in the order of the source, \<open>None\<close>
  when control reaches the end of the block. No operation in it throws.
\<close>

definition sniffDimensions :: "byte list \<Rightarrow> int ImageDimensions option" where
  "sniffDimensions bytes =
     (if isPNG bytes then Some \<lparr>width = readU32BE bytes 16, height = readU32BE bytes 20\<rparr>
      else if isGIF bytes then Some \<lparr>width = readU16LE bytes 6, height = readU16LE bytes 8\<rparr>
      else if isBMP bytes then
        let width = readU32LE bytes 18;
            rawHeight = readU32LE bytes 22;
            height = (if rawHeight > 0x7fffffff then 0x100000000 - rawHeight else rawHeight)
        in Some \<lparr>width = width, height = \<bar>height\<bar>\<rparr>
      else
        (case (if isJPEG bytes then scanJPEG bytes 2 else None) of
           Some d \<Rightarrow> Some d
         | None \<Rightarrow> if isWEBP bytes then sniffWEBP bytes else None))"

text \<open>
  \<open>getImageDimensions\<close>. With a rendering surface (\<open>canUseDom\<close>) the platform decodes
  the image: that decoder is the parameter \<open>loader\<close>, \<open>None\<close> being its \<open>onerror\<close>,
  on which the promise is rejected. Without one the bytes are sniffed.
\<close>

definition getImageDimensions ::
  "(byte list \<Rightarrow> jsstring \<Rightarrow> int ImageDimensions option) option \<Rightarrow> byte list \<Rightarrow> jsstring
     \<Rightarrow> js_error + int ImageDimensions" where
  "getImageDimensions loader buffer contentType =
     (case loader of
        Some load \<Rightarrow>
          (case load buffer contentType of
             Some d \<Rightarrow> Inr d
           | None \<Rightarrow> Inl (Error ''Failed to load image''))
      | None \<Rightarrow>
          (case sniffDimensions buffer of
             Some d \<Rightarrow> Inr d
           | None \<Rightarrow> Inr \<lparr>width = 96, height = 96\<rparr>))"

subsection \<open>The specification's vocabulary for the image claims\<close>

text \<open>
  The four rounded operations that \<open>calculateImageDimensions\<close> performs on an image
  that does not fit are accurate.
\<close>

definition accurateFit :: "FloatOps \<Rightarrow> real \<Rightarrow> real \<Rightarrow> bool" where
  "accurateFit fp w h \<longleftrightarrow>
     near (fdiv fp 576 w) (576 / w) \<and> near (fdiv fp 912 h) (912 / h)
     \<and> near (fmul fp w (min (fdiv fp 576 w) (fdiv fp 912 h)))
              (w * min (fdiv fp 576 w) (fdiv fp 912 h))
     \<and> near (fmul fp h (min (fdiv fp 576 w) (fdiv fp 912 h)))
              (h * min (fdiv fp 576 w) (fdiv fp 912 h))"

text \<open>
  The byte signatures of the five formats as the specification lists them: a prefix of
  the buffer, and for WEBP the four bytes at offset 8 as well. They are weaker than the
  guards above, which also ask for a minimum length.
\<close>

definition hasSignature :: "byte list \<Rightarrow> bool" where
  "hasSignature bytes \<longleftrightarrow>
     take 4 bytes = [0x89, 0x50, 0x4e, 0x47]
     \<or> take 3 bytes = [0x47, 0x49, 0x46]
     \<or> take 2 bytes = [0x42, 0x4d]
     \<or> take 2 bytes = [0xff, 0xd8]
     \<or> (take 4 bytes = [0x52, 0x49, 0x46, 0x46] \<and> take 4 (drop 8 bytes) = [0x57, 0x45, 0x42, 0x50])"

text \<open>
  The four bytes at an offset read as a little-endian two's-complement integer, written
  with arithmetic only: the specification's reading of the BMP height field.
\<close>

definition spec_int32LE :: "byte list \<Rightarrow> nat \<Rightarrow> int" where
  "spec_int32LE bytes o' =
     (let u = uint (bytes ! o') + 256 * uint (bytes ! (o' + 1)) + 65536 * uint (bytes ! (o' + 2))
              + 16777216 * uint (bytes ! (o' + 3))
      in if u \<ge> 2 ^ 31 then u - 2 ^ 32 else u)"

section \<open>Strings and regular expressions\<close>

text \<open>
  Character classes of the regular expressions in the sources. \<open>isSpace\<close> is the class
  \<open>\s\<close>, which is also the set that \<open>trim\<close> removes. None of the expressions
  carries the \<open>u\<close> flag, so under the \<open>i\<close> flag an ASCII letter of a pattern matches
  exactly its two ASCII cases; \<open>toLowerChar\<close> folds those. \<open>toLowerCase\<close> is used by
  the sources on text that is ASCII already, or to compare with the literals \<open>span\<close>,
  \<open>/span\<close>, \<open>br\<close> and \<open>javascript:\<close>. Outside ASCII only U+212A and U+0130 lower
  to text with an ASCII letter (\<open>k\<close>, and \<open>i\<close> followed by U+0307), which makes none
  of these comparisons succeed, so folding the ASCII letters gives the same results.
\<close>

abbreviation (input) ch :: "char \<Rightarrow> nat" where
  "ch c \<equiv> of_char c"

definition dquote :: nat where
  "dquote = 34"

definition squote :: nat where
  "squote = 39"

definition isSpace :: "nat \<Rightarrow> bool" where
  "isSpace c \<longleftrightarrow> (9 \<le> c \<and> c \<le> 13) \<or> c = 32 \<or> c = 160 \<or> c = 0x1680 \<or> (0x2000 \<le> c \<and> c \<le> 0x200a)
     \<or> c = 0x2028 \<or> c = 0x2029 \<or> c = 0x202f \<or> c = 0x205f \<or> c = 0x3000 \<or> c = 0xfeff"

definition isDigit :: "nat \<Rightarrow> bool" where
  "isDigit c \<longleftrightarrow> 48 \<le> c \<and> c \<le> 57"

definition isAlpha :: "nat \<Rightarrow> bool" where
  "isAlpha c \<longleftrightarrow> (65 \<le> c \<and> c \<le> 90) \<or> (97 \<le> c \<and> c \<le> 122)"

definition isHexDigit :: "nat \<Rightarrow> bool" where
  "isHexDigit c \<longleftrightarrow> isDigit c \<or> (65 \<le> c \<and> c \<le> 70) \<or> (97 \<le> c \<and> c \<le> 102)"

definition isWordChar :: "nat \<Rightarrow> bool" where
  "isWordChar c \<longleftrightarrow> isAlpha c \<or> isDigit c \<or> c = 95"

definition toLowerChar :: "nat \<Rightarrow> nat" where
  "toLowerChar c = (if 65 \<le> c \<and> c \<le> 90 then c + 32 else c)"

definition toLowerCase :: "jsstring \<Rightarrow> jsstring" where
  "toLowerCase s = map toLowerChar s"

definition trim :: "jsstring \<Rightarrow> jsstring" where
  "trim s = rev (dropWhile isSpace (rev (dropWhile isSpace s)))"

definition startsWith :: "jsstring \<Rightarrow> jsstring \<Rightarrow> bool" where
  "startsWith s p \<longleftrightarrow> take (length p) s = p"

definition startsWithCI :: "jsstring \<Rightarrow> jsstring \<Rightarrow> bool" where
  "startsWithCI s p \<longleftrightarrow> map toLowerChar (take (length p) s) = map toLowerChar p"

text \<open>\<open>\b\<close> after a word character: the next character is not one, or the input ends.\<close>

definition boundaryAfterWord :: "jsstring \<Rightarrow> bool" where
  "boundaryAfterWord rest = (case rest of [] \<Rightarrow> True | c # _ \<Rightarrow> \<not> isWordChar c)"

text \<open>The first position at which the rest of the string satisfies \<open>P\<close>.\<close>

fun search :: "(jsstring \<Rightarrow> bool) \<Rightarrow> jsstring \<Rightarrow> nat option" where
  "search P [] = (if P [] then Some 0 else None)"
| "search P (c # cs) = (if P (c # cs) then Some 0 else map_option Suc (search P cs))"

fun indexOf :: "nat \<Rightarrow> jsstring \<Rightarrow> nat option" where
  "indexOf x [] = None"
| "indexOf x (c # cs) = (if c = x then Some 0 else map_option Suc (indexOf x cs))"

text \<open>
  \<open>s.replace(re, f)\<close> for a global expression \<open>re\<close>. The expression is given as a
  function \<open>m\<close> telling, for the rest of the input at a position, whether \<open>re\<close>
  matches there, and then the replacement text and the length of the match. The scan
  goes left to right and resumes after each match; after an empty match it copies one
  character. None of the expressions below looks behind the position of the match.
\<close>

function gsub :: "(jsstring \<Rightarrow> (jsstring \<times> nat) option) \<Rightarrow> jsstring \<Rightarrow> jsstring" where
  "gsub m [] = (case m [] of None \<Rightarrow> [] | Some (r, n) \<Rightarrow> r)"
| "gsub m (c # cs) =
     (case m (c # cs) of
        None \<Rightarrow> c # gsub m cs
      | Some (r, n) \<Rightarrow> if n = 0 then r @ c # gsub m cs else r @ gsub m (drop n (c # cs)))"
  by pat_completeness auto
termination
  by (relation "measure (\<lambda>(m, s). length s)") auto

definition replaceAll :: "(jsstring \<Rightarrow> nat option) \<Rightarrow> jsstring \<Rightarrow> jsstring \<Rightarrow> jsstring" where
  "replaceAll m r s = gsub (\<lambda>t. map_option (\<lambda>n. (r, n)) (m t)) s"

section \<open>The HTML sanitizer\<close>

subsection \<open>The expressions of the streaming strategy\<close>

text \<open>\<open><!--[\s\S]*?-->\<close>: the lazy star stops at the first \<open>-->\<close> after the opening.\<close>

definition matchComment :: "jsstring \<Rightarrow> nat option" where
  "matchComment s =
     (if startsWith s (js ''<!--'')
      then map_option (\<lambda>k. 4 + k + 3) (search (\<lambda>t. startsWith t (js ''-->'')) (drop 4 s))
      else None)"

text \<open>
  \<open><tag\b[\s\S]*?<\/tag>\<close> with the flag \<open>i\<close>, for a tag name made of letters: the
  opening, a word boundary, and everything up to the first closing tag.
\<close>

definition matchElement :: "jsstring \<Rightarrow> jsstring \<Rightarrow> nat option" where
  "matchElement tag s =
     (let opening = js ''<'' @ tag; closing = js ''</'' @ tag @ js ''>''
      in if startsWithCI s opening \<and> boundaryAfterWord (drop (length opening) s)
         then map_option (\<lambda>k. length opening + k + length closing)
                (search (\<lambda>t. startsWithCI t closing) (drop (length opening) s))
         else None)"

text \<open>
  The attribute value \<open>(?:"[^"]*"|'[^']*'|[^\s>]+)\<close>: the alternatives in their order;
  a quote that is never closed falls through to the third one.
\<close>

definition matchAttrValue :: "jsstring \<Rightarrow> nat option" where
  "matchAttrValue s =
     (case s of
        [] \<Rightarrow> None
      | q # rest \<Rightarrow>
          (case (if q = dquote then indexOf dquote rest else None) of
             Some k \<Rightarrow> Some (k + 2)
           | None \<Rightarrow>
               (case (if q = squote then indexOf squote rest else None) of
                  Some k \<Rightarrow> Some (k + 2)
                | None \<Rightarrow>
                    let n = length (takeWhile (\<lambda>c. \<not> isSpace c \<and> c \<noteq> ch CHR ''>'') s)
                    in if n > 0 then Some n else None)))"

text \<open>\<open>\son[a-z]+\s*=\s*(?:"[^"]*"|'[^']*'|[^\s>]+)\<close> with the flag \<open>i\<close>.\<close>

definition matchEventHandler :: "jsstring \<Rightarrow> nat option" where
  "matchEventHandler s =
     (case s of
        [] \<Rightarrow> None
      | c # r \<Rightarrow>
          if isSpace c \<and> startsWithCI r (js ''on'') then
            let r1 = drop 2 r;
                r2 = dropWhile isAlpha r1;
                r3 = dropWhile isSpace r2
            in if takeWhile isAlpha r1 = [] then None
               else (case r3 of
                       [] \<Rightarrow> None
                     | e # r4 \<Rightarrow>
                         if e = ch CHR ''='' then
                           let r5 = dropWhile isSpace r4
                           in map_option (\<lambda>v. length s - length r5 + v) (matchAttrValue r5)
                         else None)
          else None)"

text \<open>\<open>\shref\s*=\s*(["'])\s*javascript:[\s\S]*?\1\<close> with the flag \<open>i\<close>.\<close>

definition matchJavascriptHref :: "jsstring \<Rightarrow> nat option" where
  "matchJavascriptHref s =
     (case s of
        [] \<Rightarrow> None
      | c # r \<Rightarrow>
          if isSpace c \<and> startsWithCI r (js ''href'') then
            (case dropWhile isSpace (drop 4 r) of
               [] \<Rightarrow> None
             | e # r2 \<Rightarrow>
                 if e = ch CHR ''='' then
                   (case dropWhile isSpace r2 of
                      [] \<Rightarrow> None
                    | q # r4 \<Rightarrow>
                        if q = dquote \<or> q = squote then
                          let r5 = dropWhile isSpace r4
                          in if startsWithCI r5 (js ''javascript:'')
                             then map_option (\<lambda>k. length s - length (drop 11 r5) + k + 1)
                                    (indexOf q (drop 11 r5))
                             else None
                        else None)
                 else None)
          else None)"

subsection \<open>sanitizeHtmlWithoutDom\<close>

definition sanitizeHtmlWithoutDom :: "jsstring \<Rightarrow> jsstring" where
  "sanitizeHtmlWithoutDom html =
     (let out = html;
          out = replaceAll matchComment [] out;
          out = replaceAll (matchElement (js ''script'')) [] out;
          out = replaceAll (matchElement (js ''iframe'')) [] out;
          out = replaceAll (matchElement (js ''object'')) [] out;
          out = replaceAll (matchElement (js ''embed'')) [] out;
          out = replaceAll (matchElement (js ''audio'')) [] out;
          out = replaceAll (matchElement (js ''video'')) [] out;
          out = replaceAll matchEventHandler [] out;
          out = replaceAll matchJavascriptHref (js '' href='' @ [dquote, ch CHR ''#'', dquote]) out
      in out)"

subsection \<open>hasHtmlContentWithoutDom\<close>

text \<open>\<open><[^>]+>\<close> and \<open>\s+\<close>.\<close>

definition matchTag :: "jsstring \<Rightarrow> nat option" where
  "matchTag s =
     (case s of
        [] \<Rightarrow> None
      | c # r \<Rightarrow>
          let n = length (takeWhile (\<lambda>x. x \<noteq> ch CHR ''>'') r)
          in if c = ch CHR ''<'' \<and> n > 0 \<and> startsWith (drop n r) (js ''>'') then Some (n + 2)
             else None)"

definition matchSpaces :: "jsstring \<Rightarrow> nat option" where
  "matchSpaces s = (let n = length (takeWhile isSpace s) in if n > 0 then Some n else None)"

text \<open>
  \<open><(img|svg|table|pre|code|hr|br|math|canvas|iframe|object|embed)\b\<close> with the flag
  \<open>i\<close>, tested at one position.
\<close>

definition renderingTags :: "jsstring list" where
  "renderingTags = map js [''img'', ''svg'', ''table'', ''pre'', ''code'', ''hr'', ''br'', ''math'',
     ''canvas'', ''iframe'', ''object'', ''embed'']"

definition renderingTagAt :: "jsstring \<Rightarrow> bool" where
  "renderingTagAt s =
     (case s of
        [] \<Rightarrow> False
      | c # r \<Rightarrow> c = ch CHR ''<'' \<and>
          list_ex (\<lambda>name. startsWithCI r name \<and> boundaryAfterWord (drop (length name) r)) renderingTags)"

text \<open>The visible text that the function computes before it looks for rendering tags.\<close>

definition normalizedHtml :: "jsstring \<Rightarrow> jsstring" where
  "normalizedHtml html =
     trim (replaceAll (matchElement (js ''style'')) []
            (replaceAll (matchElement (js ''script'')) []
              (replaceAll matchComment [] html)))"

definition strippedText :: "jsstring \<Rightarrow> jsstring" where
  "strippedText normalized =
     trim (replaceAll matchSpaces (js '' '') (replaceAll matchTag [] normalized))"

definition hasHtmlContentWithoutDom :: "jsstring \<Rightarrow> bool" where
  "hasHtmlContentWithoutDom html =
     (let normalized = normalizedHtml html
      in if normalized = [] then False
         else if length (strippedText normalized) > 0 then True
         else if search renderingTagAt normalized \<noteq> None then True
         else False)"

subsection \<open>The tree-walking strategy\<close>

text \<open>
  A node of the document tree, with the properties the sources read. The browser's
  parser and serializer (the \<open>innerHTML\<close> setter and getter) are not part of the
  repository: they are the two fields of \<open>Dom\<close>, and either may throw. An environment
  without \<open>document\<close> is \<open>None\<close>.
\<close>

datatype node =
    Element (tagName: jsstring) (classList: "jsstring list")
            (attributes: "(jsstring \<times> jsstring) list") (childNodes: "node list")
  | TextNode jsstring
  | CommentNode jsstring
  | OtherNode

record Dom =
  parseHTML :: "jsstring \<Rightarrow> js_error + node list"
  serializeHTML :: "node list \<Rightarrow> js_error + jsstring"

definition blockedTags :: "jsstring list" where
  "blockedTags = map js [''SCRIPT'', ''IFRAME'', ''OBJECT'', ''EMBED'', ''AUDIO'', ''VIDEO'']"

definition dangerousAttribute :: "jsstring \<times> jsstring \<Rightarrow> bool" where
  "dangerousAttribute attr =
     (startsWith (fst attr) (js ''on'')
      \<or> (fst attr = js ''href'' \<and> startsWith (toLowerCase (trim (snd attr))) (js ''javascript:'')))"

text \<open>
  \<open>sanitizeNodeTree\<close> applied to the child nodes of its root. The source walks the
  tree with an explicit stack and edits it in place: a comment child is removed, an
  element with a blocked tag is removed with its subtree (its descendants are never
  visited), any other element loses its dangerous attributes and has its children
  treated in the same way. The order of the visits does not show in the result, which
  is computed here by recursion on the tree.
\<close>

fun sanitizeNodeTree :: "node list \<Rightarrow> node list" where
  "sanitizeNodeTree [] = []"
| "sanitizeNodeTree (CommentNode c # ns) = sanitizeNodeTree ns"
| "sanitizeNodeTree (Element tag cls attrs kids # ns) =
     (if tag \<in> set blockedTags then sanitizeNodeTree ns
      else Element tag cls (filter (\<lambda>a. \<not> dangerousAttribute a) attrs) (sanitizeNodeTree kids)
             # sanitizeNodeTree ns)"
| "sanitizeNodeTree (n # ns) = n # sanitizeNodeTree ns"

subsection \<open>sanitizeHtml, hasHtmlContent, sanitizeAndCheck\<close>

definition sanitizeHtml :: "Dom option \<Rightarrow> jsstring \<Rightarrow> jsstring" where
  "sanitizeHtml document html =
     (case document of
        None \<Rightarrow> sanitizeHtmlWithoutDom html
      | Some browser \<Rightarrow>
          (case parseHTML browser html of
             Inl error \<Rightarrow> html
           | Inr fragment \<Rightarrow>
               (case serializeHTML browser (sanitizeNodeTree fragment) of
                  Inl error \<Rightarrow> html
                | Inr innerHTML \<Rightarrow> innerHTML)))"

fun textContent :: "node list \<Rightarrow> jsstring" where
  "textContent [] = []"
| "textContent (TextNode t # ns) = t @ textContent ns"
| "textContent (Element tag cls attrs kids # ns) = textContent kids @ textContent ns"
| "textContent (n # ns) = textContent ns"

definition isElement :: "node \<Rightarrow> bool" where
  "isElement n = (case n of Element tag cls attrs kids \<Rightarrow> True | _ \<Rightarrow> False)"

definition hasHtmlContent :: "Dom option \<Rightarrow> jsstring \<Rightarrow> js_error + bool" where
  "hasHtmlContent document sanitizedHtml =
     (case document of
        None \<Rightarrow> Inr (hasHtmlContentWithoutDom sanitizedHtml)
      | Some browser \<Rightarrow>
          (case parseHTML browser sanitizedHtml of
             Inl error \<Rightarrow> Inl error
           | Inr temp \<Rightarrow> Inr (length (trim (textContent temp)) > 0 \<or> list_ex isElement temp)))"

text \<open>
  \<open>^(?:<br\s*\/?>(?:\s|&nbsp;)*)+$\<close> with the flag \<open>i\<close>. \<open>skipBreakFiller\<close> is
  the inner star, \<open>matchBreak\<close> one round of the group, giving the rest of the input.
\<close>

function skipBreakFiller :: "jsstring \<Rightarrow> jsstring" where
  "skipBreakFiller s =
     (case s of
        [] \<Rightarrow> []
      | c # cs \<Rightarrow>
          if isSpace c then skipBreakFiller cs
          else if startsWithCI s (js ''&nbsp;'') then skipBreakFiller (drop 6 s)
          else s)"
  by pat_completeness auto
termination
  by (relation "measure length") auto

declare skipBreakFiller.simps [simp del]

definition matchBreak :: "jsstring \<Rightarrow> jsstring option" where
  "matchBreak s =
     (if startsWithCI s (js ''<br'') then
        let r1 = dropWhile isSpace (drop 3 s);
            r2 = (if startsWith r1 (js ''/'') then drop 1 r1 else r1)
        in if startsWith r2 (js ''>'') then Some (skipBreakFiller (drop 1 r2)) else None
      else None)"

function onlyLineBreaks :: "jsstring \<Rightarrow> bool" where
  "onlyLineBreaks s =
     (case matchBreak s of
        None \<Rightarrow> False
      | Some rest \<Rightarrow> if rest = [] then True else onlyLineBreaks rest)"
  by pat_completeness auto
termination
proof (relation "measure length")
  show "wf (measure (length :: jsstring \<Rightarrow> nat))"
    by simp
next
  fix s rest :: jsstring
  assume m: "matchBreak s = Some rest" and "rest \<noteq> []"
  have filler: "length (skipBreakFiller t) \<le> length t" for t
  proof (induction t rule: skipBreakFiller.induct)
    case (1 t)
    show ?case
    proof (cases t)
      case Nil
      then show ?thesis by (simp add: skipBreakFiller.simps)
    next
      case (Cons c cs)
      show ?thesis
      proof (cases "isSpace c")
        case True
        then have "skipBreakFiller t = skipBreakFiller cs"
          using Cons by (subst skipBreakFiller.simps) simp
        then show ?thesis using "1.IH"(1) [OF Cons True] Cons by simp
      next
        case False
        show ?thesis
        proof (cases "startsWithCI t (js ''&nbsp;'')")
          case True
          then have "skipBreakFiller t = skipBreakFiller (drop 6 t)"
            using Cons False by (subst skipBreakFiller.simps) simp
          then show ?thesis using "1.IH"(2) [OF Cons False True] by simp
        next
          case nb: False
          then have "skipBreakFiller t = t"
            using Cons False by (subst skipBreakFiller.simps) simp
          then show ?thesis by simp
        qed
      qed
    qed
  qed
  define r1 where "r1 = dropWhile isSpace (drop 3 s)"
  define r2 where "r2 = (if startsWith r1 (js ''/'') then drop 1 r1 else r1)"
  from m have gt: "startsWith r2 (js ''>'')" and rest: "rest = skipBreakFiller (drop 1 r2)"
    by (auto simp: matchBreak_def Let_def r1_def r2_def split: if_splits)
  have "r2 \<noteq> []"
  proof
    assume "r2 = []"
    then have "\<not> startsWith r2 (js ''>'')"
      by (simp only: startsWith_def js_def) simp
    with gt show False by simp
  qed
  then have a: "length (drop 1 r2) < length r2"
    by simp
  have "length r1 \<le> length s"
    using length_dropWhile_le [of isSpace "drop 3 s"] by (simp add: r1_def)
  then have b: "length r2 \<le> length s"
    by (auto simp: r2_def)
  have c: "length rest \<le> length (drop 1 r2)"
    using filler [of "drop 1 r2"] rest by simp
  from a b c have "length rest < length s"
    by linarith
  then show "(rest, s) \<in> measure length"
    by simp
qed

declare onlyLineBreaks.simps [simp del]

record SanitizeResult =
  sanitized :: jsstring
  hasContent :: bool

definition sanitizeAndCheck :: "Dom option \<Rightarrow> jsstring \<Rightarrow> js_error + SanitizeResult" where
  "sanitizeAndCheck document html =
     (if onlyLineBreaks html then Inr \<lparr>sanitized = [], hasContent = False\<rparr>
      else
        let clean = sanitizeHtml document html
        in (case hasHtmlContent document clean of
              Inl error \<Rightarrow> Inl error
            | Inr found \<Rightarrow> Inr \<lparr>sanitized = clean, hasContent = found\<rparr>))"

section \<open>docx-code-highlighter.ts\<close>

subsection \<open>decodeHtmlEntities\<close>

text \<open>
  \<open>&(#x?[0-9a-fA-F]+|[a-zA-Z]+);\<close> (no flag \<open>i\<close>): the text between \<open>&\<close> and
  \<open>;\<close>, when the expression matches at the head of \<open>s\<close>. The optional \<open>x\<close> is
  tried first; without hexadecimal digits after it the first alternative fails.
\<close>

definition matchEntity :: "jsstring \<Rightarrow> jsstring option" where
  "matchEntity s =
     (case s of
        [] \<Rightarrow> None
      | a # rest \<Rightarrow>
          if a \<noteq> ch CHR ''&'' then None
          else
            let numeric =
                  (case rest of
                     [] \<Rightarrow> None
                   | h # r1 \<Rightarrow>
                       if h \<noteq> ch CHR ''#'' then None
                       else
                         let r2 = (if startsWith r1 (js ''x'') then drop 1 r1 else r1);
                             digits = takeWhile isHexDigit r2
                         in if digits \<noteq> [] \<and> startsWith (drop (length digits) r2) (js '';'')
                            then Some (take (length rest - length r2 + length digits) rest)
                            else None);
                letters = takeWhile isAlpha rest
            in (case numeric of
                  Some ent \<Rightarrow> Some ent
                | None \<Rightarrow>
                    if letters \<noteq> [] \<and> startsWith (drop (length letters) rest) (js '';'')
                    then Some letters else None))"

text \<open>
  \<open>Number.parseInt\<close> on a string of lower-case digits: the value of the longest
  prefix of digits of the radix, \<open>None\<close> (NaN) when there is none. The result is a
  double: it is infinite from \<open>doubleOverflow\<close> on.
\<close>

definition digitValue :: "nat \<Rightarrow> nat" where
  "digitValue c = (if isDigit c then c - 48 else c - 87)"

definition parseInt :: "jsstring \<Rightarrow> nat \<Rightarrow> nat option" where
  "parseInt s radix =
     (let digits = takeWhile (\<lambda>c. if radix = 16 then isDigit c \<or> (97 \<le> c \<and> c \<le> 102) else isDigit c) s
      in if digits = [] then None
         else Some (foldl (\<lambda>acc c. acc * radix + digitValue c) 0 digits))"

definition doubleOverflow :: nat where
  "doubleOverflow = 2 ^ 1024 - 2 ^ 970"

definition isFinite :: "nat option \<Rightarrow> bool" where
  "isFinite v = (case v of None \<Rightarrow> False | Some n \<Rightarrow> n < doubleOverflow)"

text \<open>\<open>String.fromCodePoint\<close> in its \<open>try\<close>: the empty string when it throws.\<close>

definition fromCodePoint :: "nat \<Rightarrow> jsstring" where
  "fromCodePoint codePoint =
     (if codePoint > 0x10ffff then []
      else if codePoint < 0x10000 then [codePoint]
      else [0xd800 + (codePoint - 0x10000) div 0x400, 0xdc00 + (codePoint - 0x10000) mod 0x400])"

definition entityText :: "jsstring \<Rightarrow> jsstring" where
  "entityText ent =
     (let lower = toLowerCase ent
      in if lower = js ''lt'' then js ''<''
         else if lower = js ''gt'' then js ''>''
         else if lower = js ''amp'' then js ''&''
         else if lower = js ''quot'' then [dquote]
         else if lower = js ''apos'' then [squote]
         else if lower = js ''nbsp'' then js '' ''
         else if startsWith lower (js ''#x'') \<and> isFinite (parseInt (drop 2 lower) 16)
         then fromCodePoint (the (parseInt (drop 2 lower) 16))
         else if startsWith lower (js ''#'') \<and> isFinite (parseInt (drop 1 lower) 10)
         then fromCodePoint (the (parseInt (drop 1 lower) 10))
         else js ''&'' @ ent @ js '';'')"

definition decodeHtmlEntities :: "jsstring \<Rightarrow> jsstring" where
  "decodeHtmlEntities input =
     (if input = [] then []
      else gsub (\<lambda>t. map_option (\<lambda>ent. (entityText ent, length ent + 2)) (matchEntity t)) input)"

subsection \<open>The highlighter built by createCodeHighlighter\<close>

text \<open>
  The color table is a plain object of type \<open>Record<string, string>\<close>, which a theme
  may lack (\<open>codeColors.colors?.[name]\<close>). Its own entries are a map from names to
  colors. Reading a property of a plain object gives the object's own entry when there
  is one; otherwise it gives what the object inherits from \<open>Object.prototype\<close>, under
  one of the names below: a function, or the prototype itself for \<open>__proto__\<close>, in
  each case a value that is truthy and has no method \<open>replace\<close>. Under any other name
  the result is \<open>undefined\<close>.
\<close>

datatype property = Undefined | StringValue jsstring | InheritedValue

definition objectPrototypeNames :: "jsstring list" where
  "objectPrototypeNames = map js [''constructor'', ''hasOwnProperty'', ''isPrototypeOf'',
     ''propertyIsEnumerable'', ''toLocaleString'', ''toString'', ''valueOf'', ''__proto__'',
     ''__defineGetter__'', ''__defineSetter__'', ''__lookupGetter__'', ''__lookupSetter__'']"

definition getProperty :: "(jsstring \<rightharpoonup> jsstring) option \<Rightarrow> jsstring \<Rightarrow> property" where
  "getProperty table name =
     (case table of
        None \<Rightarrow> Undefined
      | Some own \<Rightarrow>
          (case own name of
             Some v \<Rightarrow> StringValue v
           | None \<Rightarrow> if name \<in> set objectPrototypeNames then InheritedValue else Undefined))"

text \<open>Calling a method that a value does not have throws a \<open>TypeError\<close>.\<close>

definition TypeError :: js_error where
  "TypeError = Error ''TypeError''"

record CodeColors =
  foreground :: jsstring
  colors :: "(jsstring \<rightharpoonup> jsstring) option"

record CodeStyle =
  font :: jsstring
  fontSize :: real

record DOCXThemeStyles =
  codeColors :: "CodeColors option"
  codeCharacterStyle :: "CodeStyle option"

definition DEFAULT_CODE_COLORS :: CodeColors where
  "DEFAULT_CODE_COLORS = \<lparr>foreground = js ''24292E'', colors = Some Map.empty\<rparr>"

definition DEFAULT_CODE_STYLE :: CodeStyle where
  "DEFAULT_CODE_STYLE = \<lparr>font = js ''Consolas'', fontSize = 20\<rparr>"

text \<open>The two values that the functions of the highlighter close over.\<close>

record Highlighter =
  hlColors :: CodeColors
  hlStyle :: CodeStyle

definition createCodeHighlighter :: "DOCXThemeStyles option \<Rightarrow> Highlighter" where
  "createCodeHighlighter themeStyles =
     \<lparr>hlColors = (case themeStyles of None \<Rightarrow> DEFAULT_CODE_COLORS
                   | Some t \<Rightarrow> (case codeColors t of None \<Rightarrow> DEFAULT_CODE_COLORS | Some c \<Rightarrow> c)),
      hlStyle = (case themeStyles of None \<Rightarrow> DEFAULT_CODE_STYLE
                  | Some t \<Rightarrow> (case codeCharacterStyle t of None \<Rightarrow> DEFAULT_CODE_STYLE | Some c \<Rightarrow> c))\<rparr>"

subsection \<open>getHighlightColor\<close>

text \<open>\<open>s.split(/\s+/)\<close>: the pieces between maximal runs of white space.\<close>

function splitSpaces :: "jsstring \<Rightarrow> jsstring \<Rightarrow> jsstring list" where
  "splitSpaces piece [] = [piece]"
| "splitSpaces piece (c # cs) =
     (if isSpace c then piece # splitSpaces [] (dropWhile isSpace cs)
      else splitSpaces (piece @ [c]) cs)"
  by pat_completeness auto
termination
  by (relation "measure (\<lambda>(piece, s). length s)") (auto simp: length_dropWhile_le less_Suc_eq_le)

datatype classListArg = ClassNull | ClassString jsstring | ClassTokens "jsstring list"

definition normalizeToken :: "jsstring \<Rightarrow> jsstring" where
  "normalizeToken token = map (\<lambda>c. if c = ch CHR ''-'' then ch CHR ''_'' else c) token"

text \<open>
  The loop over the tokens. On a string \<open>themeColor.replace('#', '')\<close> removes the
  first \<open>#\<close>; on an inherited value, which is truthy, the call throws. The function is
  called outside every \<open>try\<close>, so the exception leaves its callers too.
\<close>

fun tokenColor :: "CodeColors \<Rightarrow> jsstring list \<Rightarrow> js_error + jsstring option" where
  "tokenColor cc [] = Inr None"
| "tokenColor cc (rawToken # tokens) =
     (if rawToken = [] then tokenColor cc tokens
      else
        let token = (if startsWith rawToken (js ''hljs-'') then drop 5 rawToken else rawToken)
        in if token = [] then tokenColor cc tokens
           else (case getProperty (colors cc) (normalizeToken token) of
                   Undefined \<Rightarrow> tokenColor cc tokens
                 | StringValue themeColor \<Rightarrow>
                     if themeColor = [] then tokenColor cc tokens
                     else Inr (Some (remove1 (ch CHR ''#'') themeColor))
                 | InheritedValue \<Rightarrow> Inl TypeError))"

definition getHighlightColor :: "Highlighter \<Rightarrow> classListArg \<Rightarrow> js_error + jsstring option" where
  "getHighlightColor h classes =
     (case classes of
        ClassNull \<Rightarrow> Inr None
      | ClassString s \<Rightarrow> if s = [] then Inr None else tokenColor (hlColors h) (splitSpaces [] s)
      | ClassTokens tokens \<Rightarrow> tokenColor (hlColors h) tokens)"

subsection \<open>appendCodeTextRuns\<close>

text \<open>\<open>text.split('\n')\<close>.\<close>

fun splitLines :: "jsstring \<Rightarrow> jsstring \<Rightarrow> jsstring list" where
  "splitLines piece [] = [piece]"
| "splitLines piece (c # cs) =
     (if c = 10 then piece # splitLines [] cs else splitLines (piece @ [c]) cs)"

definition codeRun :: "Highlighter \<Rightarrow> jsstring \<Rightarrow> jsstring \<Rightarrow> TextRunOptions" where
  "codeRun h t appliedColor =
     \<lparr>run_text = t, run_font = Some (font (hlStyle h)), run_size = Some (fontSize (hlStyle h)),
      run_color = Some appliedColor, run_italics = None, run_break = None\<rparr>"

definition breakRun :: TextRunOptions where
  "breakRun = \<lparr>run_text = [], run_font = None, run_size = None, run_color = None,
     run_italics = None, run_break = Some 1\<rparr>"

text \<open>\<open>a || b\<close> on two optional strings: \<open>null\<close> and the empty string are falsy.\<close>

definition orElse :: "jsstring option \<Rightarrow> jsstring option \<Rightarrow> jsstring option" where
  "orElse a b = (case a of None \<Rightarrow> b | Some c \<Rightarrow> if c = [] then b else Some c)"

text \<open>The body of \<open>segments.forEach((segment, index) => ...)\<close>, from \<open>index\<close> on.\<close>

fun pushSegments ::
  "Highlighter \<Rightarrow> jsstring \<Rightarrow> nat \<Rightarrow> nat \<Rightarrow> jsstring list \<Rightarrow> TextRunOptions list \<Rightarrow> TextRunOptions list" where
  "pushSegments h appliedColor lastIndex index [] runs = runs"
| "pushSegments h appliedColor lastIndex index (segment # segments) runs =
     (let runs1 = (if length segment > 0 then runs @ [codeRun h segment appliedColor] else runs);
          runs2 = (if index < lastIndex then runs1 @ [breakRun] else runs1)
      in pushSegments h appliedColor lastIndex (index + 1) segments runs2)"

definition appendCodeTextRuns ::
  "Highlighter \<Rightarrow> jsstring \<Rightarrow> TextRunOptions list \<Rightarrow> jsstring option \<Rightarrow> TextRunOptions list" where
  "appendCodeTextRuns h t runs color =
     (if t = [] then runs
      else
        let segments = splitLines [] t;
            lastIndex = length segments - 1;
            defaultColor = foreground (hlColors h);
            appliedColor = (case orElse color (Some defaultColor) of Some c \<Rightarrow> c | None \<Rightarrow> defaultColor)
        in pushSegments h appliedColor lastIndex 0 segments runs)"

subsection \<open>appendHighlightedRunsFromHtml\<close>

text \<open>
  The style stack is an array: \<open>push\<close> appends and \<open>pop\<close> removes the last frame, and
  does nothing on the empty stack. \<open>currentColor\<close> walks it from the last frame down
  and stops at the first frame with a color; an exception of the callback ends the walk,
  and with it \<open>flush\<close> and the tokenizer.
\<close>

fun firstColor ::
  "(jsstring list option \<Rightarrow> js_error + jsstring option) \<Rightarrow> jsstring list list
     \<Rightarrow> js_error + jsstring option" where
  "firstColor getColor [] = Inr None"
| "firstColor getColor (frame # frames) =
     (case getColor (Some frame) of
        Inl error \<Rightarrow> Inl error
      | Inr None \<Rightarrow> firstColor getColor frames
      | Inr (Some c) \<Rightarrow> if c = [] then firstColor getColor frames else Inr (Some c))"

definition currentColor ::
  "(jsstring list option \<Rightarrow> js_error + jsstring option) \<Rightarrow> jsstring \<Rightarrow> jsstring list list
     \<Rightarrow> js_error + jsstring" where
  "currentColor getColor defaultColor stack =
     (case firstColor getColor (rev stack) of
        Inl error \<Rightarrow> Inl error
      | Inr (Some c) \<Rightarrow> Inr c
      | Inr None \<Rightarrow> Inr defaultColor)"

definition flush ::
  "(jsstring list option \<Rightarrow> js_error + jsstring option)
     \<Rightarrow> (jsstring \<Rightarrow> TextRunOptions list \<Rightarrow> jsstring option \<Rightarrow> TextRunOptions list)
     \<Rightarrow> jsstring \<Rightarrow> jsstring list list \<Rightarrow> jsstring \<times> TextRunOptions list
     \<Rightarrow> js_error + jsstring \<times> TextRunOptions list" where
  "flush getColor appendRuns defaultColor stack state =
     (case state of (buffer, runs) \<Rightarrow>
        if buffer = [] then Inr (buffer, runs)
        else (case currentColor getColor defaultColor stack of
                Inl error \<Rightarrow> Inl error
              | Inr color \<Rightarrow> Inr ([], appendRuns (decodeHtmlEntities buffer) runs (Some color))))"

text \<open>
  \<open>rawTag.match(/\bclass\s*=\s*(?:"([^"]*)"|'([^']*)')/i)\<close>: \<open>classAttributeAt\<close> is
  the expression after the word boundary at one position, giving the captured group;
  \<open>findClassAttribute\<close> is the leftmost match, its first argument telling whether the
  character before the position is a word character.
\<close>

definition classAttributeAt :: "jsstring \<Rightarrow> jsstring option" where
  "classAttributeAt s =
     (if startsWithCI s (js ''class'') then
        (case dropWhile isSpace (drop 5 s) of
           [] \<Rightarrow> None
         | e # r2 \<Rightarrow>
             if e = ch CHR ''='' then
               (case dropWhile isSpace r2 of
                  [] \<Rightarrow> None
                | q # r4 \<Rightarrow>
                    if q = dquote \<or> q = squote
                    then map_option (\<lambda>k. take k r4) (indexOf q r4)
                    else None)
             else None)
      else None)"

fun findClassAttribute :: "bool \<Rightarrow> jsstring \<Rightarrow> jsstring option" where
  "findClassAttribute afterWord [] = None"
| "findClassAttribute afterWord (c # cs) =
     (case (if afterWord then None else classAttributeAt (c # cs)) of
        Some v \<Rightarrow> Some v
      | None \<Rightarrow> findClassAttribute (isWordChar c) cs)"

definition spanClasses :: "jsstring \<Rightarrow> jsstring list" where
  "spanClasses rawTag =
     (let classValue = trim (case findClassAttribute False rawTag of Some v \<Rightarrow> v | None \<Rightarrow> [])
      in if classValue = [] then [] else filter (\<lambda>t. t \<noteq> []) (splitSpaces [] classValue))"

text \<open>
  The main loop, on the part of \<open>html\<close> from position \<open>i\<close> on. Its state is the
  stack, the buffer and the runs appended so far; \<open>[]\<close> is the end of the input, where
  the loop is left and the final \<open>flush\<close> runs.
\<close>

function scanHtml ::
  "(jsstring list option \<Rightarrow> js_error + jsstring option)
     \<Rightarrow> (jsstring \<Rightarrow> TextRunOptions list \<Rightarrow> jsstring option \<Rightarrow> TextRunOptions list)
     \<Rightarrow> jsstring \<Rightarrow> jsstring list list \<Rightarrow> jsstring \<Rightarrow> TextRunOptions list \<Rightarrow> jsstring
     \<Rightarrow> js_error + TextRunOptions list" where
  "scanHtml getColor appendRuns defaultColor stack buffer runs [] =
     (case flush getColor appendRuns defaultColor stack (buffer, runs) of
        Inl error \<Rightarrow> Inl error
      | Inr flushed \<Rightarrow> Inr (snd flushed))"
| "scanHtml getColor appendRuns defaultColor stack buffer runs (c # rest) =
     (if c \<noteq> ch CHR ''<'' then
        scanHtml getColor appendRuns defaultColor stack (buffer @ [c]) runs rest
      else
        (case indexOf (ch CHR ''>'') rest of
           None \<Rightarrow>
             (case flush getColor appendRuns defaultColor stack (buffer @ c # rest, runs) of
                Inl error \<Rightarrow> Inl error
              | Inr flushed \<Rightarrow> Inr (snd flushed))
         | Some k \<Rightarrow>
             let rawTag = trim (take k rest);
                 tag = toLowerCase rawTag
             in (case (if startsWith tag (js ''span'') \<or> tag = js ''/span'' \<or> startsWith tag (js ''br'')
                       then flush getColor appendRuns defaultColor stack (buffer, runs)
                       else Inr (buffer, runs)) of
                   Inl error \<Rightarrow> Inl error
                 | Inr flushed \<Rightarrow>
                     if startsWith tag (js ''span'') then
                       scanHtml getColor appendRuns defaultColor (stack @ [spanClasses rawTag])
                         (fst flushed) (snd flushed) (drop (k + 1) rest)
                     else if tag = js ''/span'' then
                       scanHtml getColor appendRuns defaultColor (butlast stack)
                         (fst flushed) (snd flushed) (drop (k + 1) rest)
                     else if startsWith tag (js ''br'') then
                       scanHtml getColor appendRuns defaultColor stack
                         (fst flushed @ [10]) (snd flushed) (drop (k + 1) rest)
                     else
                       scanHtml getColor appendRuns defaultColor stack
                         (fst flushed) (snd flushed) (drop (k + 1) rest))))"
  by pat_completeness auto
termination
  by (relation "measure (\<lambda>(getColor, appendRuns, defaultColor, stack, buffer, runs, s). length s)") auto

declare scanHtml.simps [simp del]

definition appendHighlightedRunsFromHtml ::
  "jsstring \<Rightarrow> TextRunOptions list \<Rightarrow> (jsstring list option \<Rightarrow> js_error + jsstring option)
     \<Rightarrow> (jsstring \<Rightarrow> TextRunOptions list \<Rightarrow> jsstring option \<Rightarrow> TextRunOptions list)
     \<Rightarrow> jsstring \<Rightarrow> js_error + TextRunOptions list" where
  "appendHighlightedRunsFromHtml html runs getColor appendRuns defaultColor =
     scanHtml getColor appendRuns defaultColor [] [] runs html"

subsection \<open>collectHighlightedRuns\<close>

text \<open>
  The recursive walk over a parsed tree, applied to a list of sibling nodes;
  \<open>inheritedColor\<close> may be \<open>null\<close>, which stands for the theme's foreground.
\<close>

fun collectHighlightedRuns ::
  "Highlighter \<Rightarrow> node list \<Rightarrow> TextRunOptions list \<Rightarrow> jsstring option
     \<Rightarrow> js_error + TextRunOptions list" where
  "collectHighlightedRuns h [] runs inheritedColor = Inr runs"
| "collectHighlightedRuns h (TextNode v # ns) runs inheritedColor =
     collectHighlightedRuns h ns
       (appendCodeTextRuns h v runs
          (case inheritedColor of None \<Rightarrow> Some (foreground (hlColors h)) | Some c \<Rightarrow> Some c))
       inheritedColor"
| "collectHighlightedRuns h (Element tag cls attrs kids # ns) runs inheritedColor =
     (let inherited = (case inheritedColor of None \<Rightarrow> Some (foreground (hlColors h)) | Some c \<Rightarrow> Some c)
      in (case getHighlightColor h (ClassTokens cls) of
            Inl error \<Rightarrow> Inl error
          | Inr found \<Rightarrow>
              let elementColor = orElse found inherited;
                  nextColor = orElse elementColor inherited
              in (case collectHighlightedRuns h kids runs nextColor of
                    Inl error \<Rightarrow> Inl error
                  | Inr runs1 \<Rightarrow> collectHighlightedRuns h ns runs1 inheritedColor)))"
| "collectHighlightedRuns h (n # ns) runs inheritedColor =
     collectHighlightedRuns h ns runs inheritedColor"

subsection \<open>getHighlightedRunsForCode\<close>

text \<open>
  The highlighting engine is outside the repository: \<open>getLanguage\<close> tells whether it
  knows a language and \<open>highlight\<close> gives the markup or throws. \<open>language\<close> may be
  \<open>null\<close>. An exception of the engine is caught; one of the browser's parser or of
  \<open>getHighlightColor\<close> is not.
  The container is a \<open>div\<close> without classes, so the walk over it is the walk over
  its child nodes with the default color.
\<close>

text \<open>The callback \<open>(cls) => getHighlightColor(cls)\<close> handed to the tokenizer.\<close>

definition themeGetColor :: "Highlighter \<Rightarrow> jsstring list option \<Rightarrow> js_error + jsstring option" where
  "themeGetColor h cls = getHighlightColor h (case cls of None \<Rightarrow> ClassNull | Some ts \<Rightarrow> ClassTokens ts)"

record Hljs =
  getLanguage :: "jsstring \<Rightarrow> bool"
  highlight :: "jsstring \<Rightarrow> jsstring \<Rightarrow> js_error + jsstring"

definition getHighlightedRunsForCode ::
  "Highlighter \<Rightarrow> Hljs \<Rightarrow> Dom option \<Rightarrow> jsstring \<Rightarrow> jsstring option
     \<Rightarrow> js_error + TextRunOptions list" where
  "getHighlightedRunsForCode h hljs document code language =
     (if code = [] then
        Inr [\<lparr>run_text = [], run_font = Some (font (hlStyle h)),
              run_size = Some (fontSize (hlStyle h)),
              run_color = Some (foreground (hlColors h)), run_italics = None, run_break = None\<rparr>]
      else
        let highlightResult =
              (case language of
                 None \<Rightarrow> None
               | Some l \<Rightarrow>
                   if l \<noteq> [] \<and> getLanguage hljs l
                   then (case highlight hljs code l of Inl error \<Rightarrow> None | Inr v \<Rightarrow> Some v)
                   else None);
            defaultColor = foreground (hlColors h);
            highlighted =
              (case highlightResult of
                 None \<Rightarrow> Inr []
               | Some v \<Rightarrow>
                   if v = [] then Inr []
                   else (case document of
                           Some browser \<Rightarrow>
                             (case parseHTML browser v of
                                Inl error \<Rightarrow> Inl error
                              | Inr container \<Rightarrow>
                                  collectHighlightedRuns h container [] (Some defaultColor))
                         | None \<Rightarrow>
                             appendHighlightedRunsFromHtml v [] (themeGetColor h)
                               (appendCodeTextRuns h) defaultColor))
        in (case highlighted of
              Inl error \<Rightarrow> Inl error
            | Inr runs \<Rightarrow> if length runs = 0 then Inr (appendCodeTextRuns h code runs (Some defaultColor))
                           else Inr runs))"

section \<open>The specification's vocabulary for the markup claims\<close>

text \<open>
  An input made only of line breaks, described by its parts: each line break is the tag
  name in any case, white space, an optional slash and the closing bracket, followed by
  filler, each piece of which is a white-space character (U+00A0 is one) or the entity
  \<open>&nbsp;\<close> in any case.
\<close>

datatype breakFill = FillSpace nat | FillEntity jsstring

fun renderFill :: "breakFill \<Rightarrow> jsstring" where
  "renderFill (FillSpace c) = [c]"
| "renderFill (FillEntity t) = t"

fun wfFill :: "breakFill \<Rightarrow> bool" where
  "wfFill (FillSpace c) = isSpace c"
| "wfFill (FillEntity t) = (map toLowerChar t = js ''&nbsp;'')"

record lineBreak =
  breakTag :: jsstring
  breakSpace :: jsstring
  breakSlash :: bool
  breakFiller :: "breakFill list"

definition renderBreak :: "lineBreak \<Rightarrow> jsstring" where
  "renderBreak b = breakTag b @ breakSpace b @ (if breakSlash b then js ''/'' else []) @ js ''>''
     @ concat (map renderFill (breakFiller b))"

definition wfBreak :: "lineBreak \<Rightarrow> bool" where
  "wfBreak b \<longleftrightarrow> map toLowerChar (breakTag b) = js ''<br'' \<and> list_all isSpace (breakSpace b)
     \<and> list_all wfFill (breakFiller b)"

definition renderBreaks :: "lineBreak list \<Rightarrow> jsstring" where
  "renderBreaks bs = concat (map renderBreak bs)"


text \<open>
  Two trees as a browser's parser builds them. The first is the tree of
  \<open><svg><script>alert(1)</script></svg>\<close>: elements outside the HTML namespace
  report their tag name as it is written, in lower case here. The second is the tree of
  a link whose \<open>href\<close> holds a tab inside the scheme name; a browser drops tabs and
  line ends when it reads a URL, so the link runs its script.
\<close>

definition svgScriptTree :: "node list" where
  "svgScriptTree =
     [Element (js ''svg'') [] []
        [Element (js ''script'') [] [] [TextNode (js ''alert(1)'')]]]"

definition tabHrefTree :: "node list" where
  "tabHrefTree =
     [Element (js ''A'') [] [(js ''href'', js ''java'' @ [9] @ js ''script:alert(1)'')]
        [TextNode (js ''x'')]]"

section \<open>The specification's vocabulary for the highlighting claims\<close>

text \<open>
  Color resolution in the specification's words: the class tokens of the open scopes are
  taken from the innermost scope outwards, each token is looked up under its name (the
  prefix \<open>hljs-\<close> removed, hyphens turned into underscores) among the entries of the
  theme's table, the first token with an entry gives the color, written without
  \<open>#\<close>, and the foreground is used when there is none. A theme is proper when every
  entry of its table has a name and a color that is not empty once \<open>#\<close> is removed.
  The tokens of a stack are plain when none of them names a property that objects
  inherit.
\<close>

definition tableEntry :: "CodeColors \<Rightarrow> jsstring \<rightharpoonup> jsstring" where
  "tableEntry cc name = (case colors cc of None \<Rightarrow> None | Some own \<Rightarrow> own name)"

definition specTokenName :: "jsstring \<Rightarrow> jsstring" where
  "specTokenName token =
     map (\<lambda>c. if c = ch CHR ''-'' then ch CHR ''_'' else c)
       (if take 5 token = js ''hljs-'' then drop 5 token else token)"

definition specResolvedColor :: "CodeColors \<Rightarrow> jsstring list list \<Rightarrow> jsstring" where
  "specResolvedColor cc stack =
     (case List.find (\<lambda>token. tableEntry cc (specTokenName token) \<noteq> None) (concat (rev stack)) of
        None \<Rightarrow> foreground cc
      | Some token \<Rightarrow> remove1 (ch CHR ''#'') (the (tableEntry cc (specTokenName token))))"

definition properTheme :: "CodeColors \<Rightarrow> bool" where
  "properTheme cc \<longleftrightarrow>
     [] \<notin> dom (tableEntry cc) \<and> [] \<notin> remove1 (ch CHR ''#'') ` ran (tableEntry cc)"

definition plainTokens :: "jsstring list \<Rightarrow> bool" where
  "plainTokens tokens \<longleftrightarrow> list_all (\<lambda>token. specTokenName token \<notin> set objectPrototypeNames) tokens"

text \<open>
  The theme of the specification's scenario, whose table holds \<open>keyword -> FF0000\<close>,
  and an engine that marks a word with the class \<open>hljs-constructor\<close>.
\<close>

definition keywordTheme :: Highlighter where
  "keywordTheme = \<lparr>hlColors = \<lparr>foreground = js ''24292E'', colors = Some [js ''keyword'' \<mapsto> js ''FF0000'']\<rparr>,
                    hlStyle = DEFAULT_CODE_STYLE\<rparr>"

definition constructorEngine :: Hljs where
  "constructorEngine =
     \<lparr>getLanguage = (\<lambda>l. True),
      highlight = (\<lambda>c l. Inr (js ''<span class='' @ [dquote] @ js ''hljs-constructor'' @ [dquote]
                                @ js ''>Some</span>(x)''))\<rparr>"

text \<open>
  Run splitting in the specification's words: the lines of a text are the pieces that
  give it back when joined by newlines and hold no newline themselves; a line gives one
  run unless it is empty, and a break marker stands between consecutive lines.
\<close>

fun joinLines :: "jsstring list \<Rightarrow> jsstring" where
  "joinLines [] = []"
| "joinLines [l] = l"
| "joinLines (l # l' # ls) = l @ 10 # joinLines (l' # ls)"

fun specLineRuns :: "Highlighter \<Rightarrow> jsstring \<Rightarrow> jsstring list \<Rightarrow> TextRunOptions list" where
  "specLineRuns h color [] = []"
| "specLineRuns h color [l] = (if l = [] then [] else [codeRun h l color])"
| "specLineRuns h color (l # l' # ls) =
     (if l = [] then [] else [codeRun h l color]) @ breakRun # specLineRuns h color (l' # ls)"

definition appliedColor :: "Highlighter \<Rightarrow> jsstring option \<Rightarrow> jsstring" where
  "appliedColor h color =
     (case color of None \<Rightarrow> foreground (hlColors h)
      | Some c \<Rightarrow> if c = [] then foreground (hlColors h) else c)"

definition newlineFree :: "TextRunOptions list \<Rightarrow> bool" where
  "newlineFree runs \<longleftrightarrow> list_all (\<lambda>r. 10 \<notin> set (run_text r)) runs"

section \<open>Verified properties\<close>

subsection \<open>Display fit\<close>

lemma Math_round_near: "\<bar>Math_round x - x\<bar> \<le> 1 / 2"
  unfolding Math_round_def by linarith

lemma Math_round_le: "x < of_int n + 1 / 2 \<Longrightarrow> Math_round x \<le> of_int n"
proof -
  assume "x < of_int n + 1 / 2"
  then have "\<lfloor>x + 1 / 2\<rfloor> \<le> n" by linarith
  then show ?thesis unfolding Math_round_def by simp
qed

lemma Math_round_eq: "\<bar>x - of_int n\<bar> < 1 / 2 \<Longrightarrow> Math_round x = of_int n"
proof -
  assume "\<bar>x - of_int n\<bar> < 1 / 2"
  then have "\<lfloor>x + 1 / 2\<rfloor> = n" by linarith
  then show ?thesis unfolding Math_round_def by simp
qed

lemma near_bounds:
  assumes "near c x" "0 \<le> x"
  shows "x - x / 2 ^ 53 \<le> c" "c \<le> x + x / 2 ^ 53"
  using assms unfolding near_def by linarith+

text \<open>The computed ratio lies within the relative error of the exact one.\<close>

lemma min_near:
  assumes "near a x" "near b y" "0 \<le> x" "0 \<le> y"
  shows "min x y - min x y / 2 ^ 53 \<le> min a b" "min a b \<le> min x y + min x y / 2 ^ 53"
proof -
  note a = near_bounds [OF assms(1,3)] and b = near_bounds [OF assms(2,4)]
  have m: "x - x / 2 ^ 53 = x * (1 - 1 / 2 ^ 53)" "y - y / 2 ^ 53 = y * (1 - 1 / 2 ^ 53)"
    "min x y - min x y / 2 ^ 53 = min x y * (1 - 1 / 2 ^ 53)"
    by (simp_all add: algebra_simps)
  have "min x y * (1 - 1 / 2 ^ 53) \<le> x * (1 - 1 / 2 ^ 53)"
    by (intro mult_right_mono) auto
  moreover have "min x y * (1 - 1 / 2 ^ 53) \<le> y * (1 - 1 / 2 ^ 53)"
    by (intro mult_right_mono) auto
  ultimately show "min x y - min x y / 2 ^ 53 \<le> min a b"
    using a(1) b(1) m by (simp add: min_def)
  show "min a b \<le> min x y + min x y / 2 ^ 53"
    using a(2) b(2) by (auto simp: min_def)
qed

text \<open>A product computed from a computed factor stays close to the exact product.\<close>

lemma product_close:
  assumes w: "0 \<le> w" and r: "0 \<le> r" and bound: "w * r \<le> M" and M: "M \<le> 912"
    and lo: "r - r / 2 ^ 53 \<le> r'" and hi: "r' \<le> r + r / 2 ^ 53"
    and p: "near p (w * r')"
  shows "\<bar>p - w * r\<bar> \<le> 1 / 10 ^ 12"
proof -
  define e :: real where "e = 1 / 2 ^ 53"
  have e: "0 \<le> e" "e \<le> 1" by (simp_all add: e_def)
  have lo': "r * (1 - e) \<le> r'" and hi': "r' \<le> r * (1 + e)"
    using lo hi by (simp_all add: e_def algebra_simps)
  have r'0: "0 \<le> r'"
    using lo' r e by (meson mult_nonneg_nonneg diff_ge_0_iff_ge order_trans)
  have wr'0: "0 \<le> w * r'" using w r'0 by simp
  have pl: "w * r' * (1 - e) \<le> p" and ph: "p \<le> w * r' * (1 + e)"
    using near_bounds [OF p wr'0] by (simp_all add: e_def algebra_simps)
  let ?a = "w * r"
  have a0: "0 \<le> ?a" using w r by simp
  have "w * r' \<le> w * (r * (1 + e))"
    using hi' w by (rule mult_left_mono)
  then have "w * r' * (1 + e) \<le> w * (r * (1 + e)) * (1 + e)"
    using e by (intro mult_right_mono) auto
  with ph have up: "p \<le> ?a * ((1 + e) * (1 + e))"
    by (simp add: algebra_simps)
  have "w * (r * (1 - e)) \<le> w * r'"
    using lo' w by (rule mult_left_mono)
  then have "w * (r * (1 - e)) * (1 - e) \<le> w * r' * (1 - e)"
    using e by (intro mult_right_mono) auto
  with pl have dn: "?a * ((1 - e) * (1 - e)) \<le> p"
    by (simp add: algebra_simps)
  have c1: "?a * ((1 + e) * (1 + e)) - ?a = ?a * (2 * e + e * e)"
    by (simp add: algebra_simps)
  have c2: "?a - ?a * ((1 - e) * (1 - e)) = ?a * (2 * e - e * e)"
    by (simp add: algebra_simps)
  have s1: "?a * (2 * e + e * e) \<le> 912 * (2 * e + e * e)"
    using bound M e by (intro mult_right_mono) auto
  have "2 * e - e * e \<le> 2 * e + e * e" using e by simp
  moreover have "0 \<le> 2 * e - e * e"
    using e by (simp add: e_def)
  ultimately have s2: "?a * (2 * e - e * e) \<le> 912 * (2 * e + e * e)"
    using bound M a0 by (meson mult_mono order_trans)
  have num: "912 * (2 * e + e * e) \<le> 1 / 10 ^ 12"
    by (simp add: e_def)
  from up c1 s1 num have "p - ?a \<le> 1 / 10 ^ 12" by linarith
  moreover from dn c2 s2 num have "?a - p \<le> 1 / 10 ^ 12" by linarith
  ultimately show ?thesis by linarith
qed


lemma scaled_le:
  assumes "0 < (w::real)" "0 < (h::real)"
  shows "w * min (576 / w) (912 / h) \<le> 576" "h * min (576 / w) (912 / h) \<le> 912"
proof -
  have "w * min (576 / w) (912 / h) \<le> w * (576 / w)"
    using assms by (intro mult_left_mono) auto
  then show "w * min (576 / w) (912 / h) \<le> 576" using assms by simp
  have "h * min (576 / w) (912 / h) \<le> h * (912 / h)"
    using assms by (intro mult_left_mono) auto
  then show "h * min (576 / w) (912 / h) \<le> 912" using assms by simp
qed

lemma ratio_less_1:
  assumes "0 < (w::real)" "0 < (h::real)" "\<not> (w \<le> 576 \<and> h \<le> 912)"
  shows "min (576 / w) (912 / h) < (1::real)"
  using assms by (auto simp: min_def field_simps)

lemma fit_products:
  assumes pos: "0 < w" "0 < h" and acc: "accurateFit fp w h"
  shows "\<bar>fmul fp w (min (fdiv fp 576 w) (fdiv fp 912 h)) - w * min (576 / w) (912 / h)\<bar> \<le> 1 / 10 ^ 12"
    and "\<bar>fmul fp h (min (fdiv fp 576 w) (fdiv fp 912 h)) - h * min (576 / w) (912 / h)\<bar> \<le> 1 / 10 ^ 12"
proof -
  let ?r = "min (576 / w) (912 / h)"
  let ?r' = "min (fdiv fp 576 w) (fdiv fp 912 h)"
  from acc have n: "near (fdiv fp 576 w) (576 / w)" "near (fdiv fp 912 h) (912 / h)"
    "near (fmul fp w ?r') (w * ?r')" "near (fmul fp h ?r') (h * ?r')"
    by (simp_all add: accurateFit_def)
  have nn: "0 \<le> 576 / w" "0 \<le> 912 / h" "0 \<le> ?r"
    using pos by simp_all
  note m = min_near [OF n(1) n(2) nn(1) nn(2)]
  show "\<bar>fmul fp w ?r' - w * ?r\<bar> \<le> 1 / 10 ^ 12"
    by (rule product_close [OF _ nn(3) scaled_le(1) [OF pos] _ m n(3)]) (use pos in simp_all)
  show "\<bar>fmul fp h ?r' - h * ?r\<bar> \<le> 1 / 10 ^ 12"
    by (rule product_close [OF _ nn(3) scaled_le(2) [OF pos] _ m n(4)]) (use pos in simp_all)
qed

text \<open>
  Claim C4. For positive original dimensions, with the four rounded operations accurate:
  an image within 576 by 912 pixels is returned unchanged; otherwise each axis is the
  rounded product of the original with the smaller of the two ratios, as the source
  computes them, the exact ratio \<open>r = min (576 / w) (912 / h)\<close> is below 1, and each
  axis lies within half a pixel (and the rounding error of the products, below
  \<open>1 / 10 ^ 12\<close>) of the exactly scaled value. In both cases the result stays within
  576 by 912. A 2000 by 3000 image yields 576 by 864.
\<close>

theorem calculateImageDimensions_fit:
  "(0 < w \<and> 0 < h \<and> accurateFit fp w h \<longrightarrow>
     (let d = calculateImageDimensions fp w h; r = min (576 / w) (912 / h) in
        (w \<le> 576 \<and> h \<le> 912 \<longrightarrow> d = \<lparr>width = w, height = h\<rparr>) \<and>
        (\<not> (w \<le> 576 \<and> h \<le> 912) \<longrightarrow>
           d = \<lparr>width = Math_round (fmul fp w (min (fdiv fp 576 w) (fdiv fp 912 h))),
                height = Math_round (fmul fp h (min (fdiv fp 576 w) (fdiv fp 912 h)))\<rparr> \<and>
           r < 1 \<and>
           \<bar>width d - w * r\<bar> \<le> 1 / 2 + 1 / 10 ^ 12 \<and>
           \<bar>height d - h * r\<bar> \<le> 1 / 2 + 1 / 10 ^ 12) \<and>
        width d \<le> 576 \<and> height d \<le> 912)) \<and>
   (accurateFit fp 2000 3000 \<longrightarrow>
      calculateImageDimensions fp 2000 3000 = \<lparr>width = 576, height = 864\<rparr>)"
proof -
  have mx: "maxWidthPixels = 576" "maxHeightPixels = 912"
    by (simp_all add: maxWidthPixels_def maxHeightPixels_def maxWidthInches_def maxHeightInches_def)
  have fits: "w \<le> 576 \<and> h \<le> 912 \<Longrightarrow> calculateImageDimensions fp w h = \<lparr>width = w, height = h\<rparr>"
    for w h
    by (simp add: calculateImageDimensions_def mx)
  have scaled: "\<not> (w \<le> 576 \<and> h \<le> 912) \<Longrightarrow>
      calculateImageDimensions fp w h
        = \<lparr>width = Math_round (fmul fp w (min (fdiv fp 576 w) (fdiv fp 912 h))),
           height = Math_round (fmul fp h (min (fdiv fp 576 w) (fdiv fp 912 h)))\<rparr>" for w h
    by (auto simp add: calculateImageDimensions_def mx Let_def)
  have general: "(let d = calculateImageDimensions fp w h; r = min (576 / w) (912 / h) in
        (w \<le> 576 \<and> h \<le> 912 \<longrightarrow> d = \<lparr>width = w, height = h\<rparr>) \<and>
        (\<not> (w \<le> 576 \<and> h \<le> 912) \<longrightarrow>
           d = \<lparr>width = Math_round (fmul fp w (min (fdiv fp 576 w) (fdiv fp 912 h))),
                height = Math_round (fmul fp h (min (fdiv fp 576 w) (fdiv fp 912 h)))\<rparr> \<and>
           r < 1 \<and>
           \<bar>width d - w * r\<bar> \<le> 1 / 2 + 1 / 10 ^ 12 \<and>
           \<bar>height d - h * r\<bar> \<le> 1 / 2 + 1 / 10 ^ 12) \<and>
        width d \<le> 576 \<and> height d \<le> 912)"
    if pos: "0 < w" "0 < h" and acc: "accurateFit fp w h"
  proof (cases "w \<le> 576 \<and> h \<le> 912")
    case True
    then show ?thesis
      unfolding Let_def using fits [of w h] by simp
  next
    case False
    let ?r = "min (576 / w) (912 / h)"
    let ?pw = "fmul fp w (min (fdiv fp 576 w) (fdiv fp 912 h))"
    let ?ph = "fmul fp h (min (fdiv fp 576 w) (fdiv fp 912 h))"
    note c = fit_products [OF pos acc]
    note le = scaled_le [OF pos]
    have rw: "\<bar>Math_round ?pw - ?pw\<bar> \<le> 1 / 2" and rh: "\<bar>Math_round ?ph - ?ph\<bar> \<le> 1 / 2"
      by (rule Math_round_near)+
    have tol: "(1::real) / 10 ^ 12 < 1 / 2" by simp
    have "?pw < of_int 576 + 1 / 2" using c(1) le(1) tol by linarith
    then have bw: "Math_round ?pw \<le> 576"
      using Math_round_le [of ?pw 576] by simp
    have "?ph < of_int 912 + 1 / 2" using c(2) le(2) tol by linarith
    then have bh: "Math_round ?ph \<le> 912"
      using Math_round_le [of ?ph 912] by simp
    have dw: "\<bar>Math_round ?pw - w * ?r\<bar> \<le> 1 / 2 + 1 / 10 ^ 12"
      using rw c(1) by linarith
    have dh: "\<bar>Math_round ?ph - h * ?r\<bar> \<le> 1 / 2 + 1 / 10 ^ 12"
      using rh c(2) by linarith
    show ?thesis
      unfolding Let_def
      using False scaled [OF False] bw bh dw dh ratio_less_1 [OF pos False] by auto
  qed
  have example: "calculateImageDimensions fp 2000 3000 = \<lparr>width = 576, height = 864\<rparr>"
    if acc: "accurateFit fp 2000 3000"
  proof -
    let ?pw = "fmul fp 2000 (min (fdiv fp 576 2000) (fdiv fp 912 3000))"
    let ?ph = "fmul fp 3000 (min (fdiv fp 576 2000) (fdiv fp 912 3000))"
    have c: "\<bar>?pw - 576\<bar> \<le> 1 / 10 ^ 12" "\<bar>?ph - 864\<bar> \<le> 1 / 10 ^ 12"
      using fit_products [OF _ _ acc] by simp_all
    have "\<bar>?pw - of_int 576\<bar> < 1 / 2" using c(1) by simp
    then have w: "Math_round ?pw = 576"
      using Math_round_eq [of ?pw 576] by simp
    have "\<bar>?ph - of_int 864\<bar> < 1 / 2" using c(2) by simp
    then have h: "Math_round ?ph = 864"
      using Math_round_eq [of ?ph 864] by simp
    show ?thesis
      using scaled [of 2000 3000] w h by simp
  qed
  from general example show ?thesis by blast
qed

theorem calculateImageDimensions_fit_witness:
  "(0::real) < 2000 \<and> (0::real) < 3000 \<and> accurateFit exactOps 2000 3000 \<and>
   width (calculateImageDimensions exactOps 2000 3000) \<le> 576 \<and>
   calculateImageDimensions exactOps 2000 3000 = \<lparr>width = 576, height = 864\<rparr>"
proof -
  have a: "accurateFit exactOps 2000 3000"
    by (simp add: accurateFit_def near_def exactOps_def)
  have r: "calculateImageDimensions exactOps 2000 3000 = \<lparr>width = 576, height = 864\<rparr>"
    using calculateImageDimensions_fit [of 2000 3000 exactOps] a by blast
  show ?thesis
    using a r by simp
qed

subsection \<open>Render-result adapter\<close>

lemma js_image_neq:
  "js ''image'' \<noteq> js ''empty''" "js ''image'' \<noteq> js ''error''" "js ''image'' \<noteq> js ''text''"
  by (simp_all add: js_def)

text \<open>
  Claim C9. For a render result of type \<open>image\<close> the placed image (returned inline, or as
  the only child of a paragraph) has the dimensions that \<open>calculateImageDimensions\<close> gives
  for the raster width and height each divided by 4 and rounded, a missing dimension
  counting as 0: the display fit is applied to the quarter-scale raster. The division is
  the source's; a double division by 4 is exact unless it underflows, and then the
  arguments are the rounded exact quarters.
\<close>

theorem convertPluginResultToDOCX_image_quarter:
  "result_type r = js ''image'' \<Longrightarrow>
   (\<exists>img. (convertPluginResultToDOCX fp r pluginType = Inline (ImageRun img) \<or>
           (\<exists>al. convertPluginResultToDOCX fp r pluginType =
              Paragraph \<lparr>children = [ImageRun img], alignment = al, spacing = Some (240, 240)\<rparr>)) \<and>
          transformation img =
            calculateImageDimensions fp
              (Math_round (fdiv fp (case content_width (content r) of None \<Rightarrow> 0 | Some w \<Rightarrow> w) 4))
              (Math_round (fdiv fp (case content_height (content r) of None \<Rightarrow> 0 | Some h \<Rightarrow> h) 4)) \<and>
          ((\<forall>x. fdiv fp x 4 = x / 4) \<longrightarrow>
             transformation img =
               calculateImageDimensions fp
                 (Math_round ((case content_width (content r) of None \<Rightarrow> 0 | Some w \<Rightarrow> w) / 4))
                 (Math_round ((case content_height (content r) of None \<Rightarrow> 0 | Some h \<Rightarrow> h) / 4))))"
proof -
  assume image: "result_type r = js ''image''"
  let ?w = "case content_width (content r) of None \<Rightarrow> 0 | Some w \<Rightarrow> w"
  let ?h = "case content_height (content r) of None \<Rightarrow> 0 | Some h \<Rightarrow> h"
  let ?img = "\<lparr>image_data = content_data (content r),
      transformation = calculateImageDimensions fp (Math_round (fdiv fp ?w 4)) (Math_round (fdiv fp ?h 4)),
      image_type = js ''png'',
      altText = \<lparr>alt_title = pluginType @ js '' Image'',
                  alt_description = pluginType @ js '' image'',
                  alt_name = pluginType @ js ''-image''\<rparr>\<rparr>"
  have placed: "convertPluginResultToDOCX fp r pluginType = Inline (ImageRun ?img) \<or>
      (\<exists>al. convertPluginResultToDOCX fp r pluginType =
         Paragraph \<lparr>children = [ImageRun ?img], alignment = al, spacing = Some (240, 240)\<rparr>)"
    using image
    by (cases "display_inline (display r)")
       (simp_all add: convertPluginResultToDOCX_def js_image_neq number_or_zero_def Let_def)
  have fitted: "transformation ?img
      = calculateImageDimensions fp (Math_round (fdiv fp ?w 4)) (Math_round (fdiv fp ?h 4))"
    by simp
  have exact: "transformation ?img
      = calculateImageDimensions fp (Math_round (?w / 4)) (Math_round (?h / 4))"
    if q: "\<forall>x. fdiv fp x 4 = x / 4"
  proof -
    from q have "fdiv fp ?w 4 = ?w / 4" "fdiv fp ?h 4 = ?h / 4" by blast+
    with fitted show ?thesis by (simp only:)
  qed
  from placed fitted exact show ?thesis by blast
qed

theorem convertPluginResultToDOCX_image_quarter_witness:
  "result_type \<lparr>result_type = js ''image'',
      content = \<lparr>content_data = Some [], content_width = Some 8000, content_height = Some 12000,
                 content_text = None\<rparr>,
      display = \<lparr>display_inline = True, display_alignment = None\<rparr>\<rparr> = js ''image'' \<and>
   (\<exists>img. convertPluginResultToDOCX exactOps \<lparr>result_type = js ''image'',
      content = \<lparr>content_data = Some [], content_width = Some 8000, content_height = Some 12000,
                 content_text = None\<rparr>,
      display = \<lparr>display_inline = True, display_alignment = None\<rparr>\<rparr> (js ''mermaid'') = Inline (ImageRun img)
      \<and> transformation img = \<lparr>width = 576, height = 864\<rparr>)"
  using convertPluginResultToDOCX_image_quarter [of "\<lparr>result_type = js ''image'',
      content = \<lparr>content_data = Some [], content_width = Some 8000, content_height = Some 12000,
                 content_text = None\<rparr>,
      display = \<lparr>display_inline = True, display_alignment = None\<rparr>\<rparr>" exactOps "js ''mermaid''"]
  by (simp add: convertPluginResultToDOCX_def js_image_neq number_or_zero_def Let_def
        calculateImageDimensions_def Math_round_def maxWidthPixels_def maxHeightPixels_def
        maxWidthInches_def maxHeightInches_def exactOps_def)

subsection \<open>Image introspection\<close>

lemma take_from_byteAt:
  "byteAt bs i = Some a \<Longrightarrow> take (Suc n) (drop i bs) = a # take n (drop (Suc i) bs)"
  by (auto simp: byteAt_def split: if_splits simp flip: Cons_nth_drop_Suc)

lemma guard_hasSignature:
  assumes "isPNG bs \<or> isGIF bs \<or> isBMP bs \<or> isJPEG bs \<or> isWEBP bs"
  shows "hasSignature bs"
proof -
  note t = take_from_byteAt [of bs 0 _ 3] take_from_byteAt [of bs 1 _ 2] take_from_byteAt [of bs 2 _ 1]
    take_from_byteAt [of bs 3 _ 0] take_from_byteAt [of bs 0 _ 2] take_from_byteAt [of bs 1 _ 1]
    take_from_byteAt [of bs 2 _ 0] take_from_byteAt [of bs 0 _ 1] take_from_byteAt [of bs 1 _ 0]
    take_from_byteAt [of bs 8 _ 3] take_from_byteAt [of bs 9 _ 2] take_from_byteAt [of bs 10 _ 1]
    take_from_byteAt [of bs 11 _ 0]
  have "isPNG bs \<Longrightarrow> take 4 bs = [0x89, 0x50, 0x4e, 0x47]"
    using t by (simp add: isPNG_def eval_nat_numeral)
  moreover have "isGIF bs \<Longrightarrow> take 3 bs = [0x47, 0x49, 0x46]"
    using t by (simp add: isGIF_def eval_nat_numeral)
  moreover have "isBMP bs \<Longrightarrow> take 2 bs = [0x42, 0x4d]"
    using t by (simp add: isBMP_def eval_nat_numeral)
  moreover have "isJPEG bs \<Longrightarrow> take 2 bs = [0xff, 0xd8]"
    using t by (simp add: isJPEG_def eval_nat_numeral)
  moreover have "isWEBP bs \<Longrightarrow>
      take 4 bs = [0x52, 0x49, 0x46, 0x46] \<and> take 4 (drop 8 bs) = [0x57, 0x45, 0x42, 0x50]"
    using t by (simp add: isWEBP_def eval_nat_numeral)
  ultimately show ?thesis
    using assms unfolding hasSignature_def by blast
qed

text \<open>
  Claim C3. Without a rendering surface \<open>getImageDimensions\<close> always returns a value and
  never an error (no operation of the byte-sniffing path throws, so its \<open>catch\<close> is never
  entered). It returns exactly 96 by 96 for every buffer that carries none of the five
  signatures, more generally for every buffer on which none of the five guards holds
  (a signature on a buffer shorter than the branch requires), and whenever the
  \<open>try\<close> block runs to its end without a result.
\<close>

theorem getImageDimensions_fallback:
  "(\<exists>d. getImageDimensions None bytes contentType = Inr d) \<and>
   (\<not> hasSignature bytes \<longrightarrow>
      getImageDimensions None bytes contentType = Inr \<lparr>width = 96, height = 96\<rparr>) \<and>
   (\<not> isPNG bytes \<and> \<not> isGIF bytes \<and> \<not> isBMP bytes \<and> \<not> isJPEG bytes \<and> \<not> isWEBP bytes \<longrightarrow>
      getImageDimensions None bytes contentType = Inr \<lparr>width = 96, height = 96\<rparr>) \<and>
   (sniffDimensions bytes = None \<longrightarrow>
      getImageDimensions None bytes contentType = Inr \<lparr>width = 96, height = 96\<rparr>)"
proof -
  have guards: "\<not> isPNG bytes \<and> \<not> isGIF bytes \<and> \<not> isBMP bytes \<and> \<not> isJPEG bytes \<and> \<not> isWEBP bytes \<Longrightarrow>
      getImageDimensions None bytes contentType = Inr \<lparr>width = 96, height = 96\<rparr>"
    by (simp add: getImageDimensions_def sniffDimensions_def)
  moreover have "\<not> hasSignature bytes \<Longrightarrow>
      \<not> isPNG bytes \<and> \<not> isGIF bytes \<and> \<not> isBMP bytes \<and> \<not> isJPEG bytes \<and> \<not> isWEBP bytes"
    using guard_hasSignature [of bytes] by blast
  moreover have "\<exists>d. getImageDimensions None bytes contentType = Inr d"
    by (simp add: getImageDimensions_def split: option.splits)
  moreover have "sniffDimensions bytes = None \<Longrightarrow>
      getImageDimensions None bytes contentType = Inr \<lparr>width = 96, height = 96\<rparr>"
    by (simp add: getImageDimensions_def)
  ultimately show ?thesis by blast
qed

theorem getImageDimensions_fallback_witness:
  "\<not> hasSignature [0x25, 0x50, 0x44, 0x46] \<and> sniffDimensions [0xff, 0xd8, 0xff, 0xd9, 0, 0, 0, 0] = None
   \<and> \<not> isPNG [0x89, 0x50, 0x4e, 0x47] \<and> \<not> isGIF [0x89, 0x50, 0x4e, 0x47] \<and> \<not> isBMP [0x89, 0x50, 0x4e, 0x47]
   \<and> \<not> isJPEG [0x89, 0x50, 0x4e, 0x47] \<and> \<not> isWEBP [0x89, 0x50, 0x4e, 0x47]
   \<and> getImageDimensions None [0x25, 0x50, 0x44, 0x46] (js ''image/png'') = Inr \<lparr>width = 96, height = 96\<rparr>
   \<and> getImageDimensions None [0x89, 0x50, 0x4e, 0x47] (js ''image/png'') = Inr \<lparr>width = 96, height = 96\<rparr>
   \<and> getImageDimensions None [0xff, 0xd8, 0xff, 0xd9, 0, 0, 0, 0] (js ''image/jpeg'')
       = Inr \<lparr>width = 96, height = 96\<rparr>"
proof -
  have j: "sniffDimensions [0xff, 0xd8, 0xff, 0xd9, 0, 0, 0, 0] = None"
    by (simp add: sniffDimensions_def isPNG_def isGIF_def isBMP_def isJPEG_def isWEBP_def byteAt_def
          scanJPEG.simps [of _ 2] skipFill.simps [of _ 2] skipFill.simps [of _ 3] Let_def)
  have g: "\<not> isPNG [0x89, 0x50, 0x4e, 0x47] \<and> \<not> isGIF [0x89, 0x50, 0x4e, 0x47] \<and> \<not> isBMP [0x89, 0x50, 0x4e, 0x47]
   \<and> \<not> isJPEG [0x89, 0x50, 0x4e, 0x47] \<and> \<not> isWEBP [0x89, 0x50, 0x4e, 0x47]"
    by (simp add: isPNG_def isGIF_def isBMP_def isJPEG_def isWEBP_def byteAt_def)
  have s: "\<not> hasSignature [0x25, 0x50, 0x44, 0x46]"
    by (simp add: hasSignature_def)
  show ?thesis
    using getImageDimensions_fallback [of "[0x25, 0x50, 0x44, 0x46]" "js ''image/png''"]
      getImageDimensions_fallback [of "[0x89, 0x50, 0x4e, 0x47]" "js ''image/png''"]
      getImageDimensions_fallback [of "[0xff, 0xd8, 0xff, 0xd9, 0, 0, 0, 0]" "js ''image/jpeg''"]
      j g s by blast
qed

lemma or_bytes_eq_add:
  fixes a b c d :: byte
  shows "(ucast a :: 32 word) OR push_bit 8 (ucast b) OR push_bit 16 (ucast c) OR push_bit 24 (ucast d)
     = ucast a + (push_bit 8 (ucast b) + (push_bit 16 (ucast c) + push_bit 24 (ucast d)))"
proof -
  have 1: "(push_bit 16 (ucast c) :: 32 word) AND push_bit 24 (ucast d) = 0"
    by (rule bit_eqI) (auto simp: bit_simps dest: bit_imp_le_length)
  have 2: "(push_bit 8 (ucast b) :: 32 word) AND (push_bit 16 (ucast c) OR push_bit 24 (ucast d)) = 0"
    by (rule bit_eqI) (auto simp: bit_simps dest: bit_imp_le_length)
  have 3: "(ucast a :: 32 word) AND (push_bit 8 (ucast b) OR push_bit 16 (ucast c) OR push_bit 24 (ucast d)) = 0"
    by (rule bit_eqI) (auto simp: bit_simps dest: bit_imp_le_length)
  show ?thesis
    using disjunctive_add_eq_or [OF 1] disjunctive_add_eq_or [OF 2] disjunctive_add_eq_or [OF 3]
    by simp
qed

lemma uint_word_of_int_32: "0 \<le> k \<Longrightarrow> k < 4294967296 \<Longrightarrow> uint (word_of_int k :: 32 word) = k"
  by (simp add: uint_word_of_int take_bit_int_eq_self)

lemma uint_le_bytes:
  fixes a b c d :: byte
  shows "uint ((ucast a :: 32 word) OR push_bit 8 (ucast b) OR push_bit 16 (ucast c) OR push_bit 24 (ucast d))
     = uint a + 256 * uint b + 65536 * uint c + 16777216 * uint d"
proof -
  let ?k = "uint a + 256 * uint b + 65536 * uint c + 16777216 * uint d"
  have bd: "uint a < 256" "uint b < 256" "uint c < 256" "uint d < 256"
    using uint_bounded [of a] uint_bounded [of b] uint_bounded [of c] uint_bounded [of d] by simp_all
  have nn: "0 \<le> uint a" "0 \<le> uint b" "0 \<le> uint c" "0 \<le> uint d"
    by simp_all
  have k: "0 \<le> ?k" "?k < 4294967296"
    using bd nn by linarith+
  have "(ucast a :: 32 word) + (push_bit 8 (ucast b) + (push_bit 16 (ucast c) + push_bit 24 (ucast d)))
      = word_of_int ?k"
    by (simp add: push_bit_eq_mult)
  then have "uint ((ucast a :: 32 word) OR push_bit 8 (ucast b) OR push_bit 16 (ucast c) OR push_bit 24 (ucast d))
      = uint (word_of_int ?k :: 32 word)"
    by (simp only: or_bytes_eq_add)
  also have "\<dots> = ?k"
    by (rule uint_word_of_int_32 [OF k])
  finally show ?thesis .
qed

lemma readU32LE_arith:
  assumes "o' + 3 < length bytes"
  shows "readU32LE bytes o' = uint (bytes ! o') + 256 * uint (bytes ! (o' + 1))
     + 65536 * uint (bytes ! (o' + 2)) + 16777216 * uint (bytes ! (o' + 3))"
  using assms by (simp add: readU32LE_def byteAt_def toInt32_def uint_le_bytes)

text \<open>
  Claim C8. On a buffer that passes the BMP guard (signature \<open>BM\<close>, at least 26 bytes) the
  result is the width field and, as height, the absolute value of the little-endian
  two's-complement integer stored at offset 22: a negative (top-down) height is returned
  as its positive magnitude.
\<close>

theorem getImageDimensions_bmp_height:
  "isBMP bytes \<Longrightarrow>
   getImageDimensions None bytes contentType
     = Inr \<lparr>width = readU32LE bytes 18, height = \<bar>spec_int32LE bytes 22\<bar>\<rparr> \<and>
   (spec_int32LE bytes 22 < 0 \<longrightarrow>
      getImageDimensions None bytes contentType
        = Inr \<lparr>width = readU32LE bytes 18, height = - spec_int32LE bytes 22\<rparr>)"
proof -
  assume bmp: "isBMP bytes"
  then have len: "22 + 3 < length bytes"
    by (simp add: isBMP_def)
  have np: "\<not> isPNG bytes" "\<not> isGIF bytes"
    using bmp by (auto simp: isBMP_def isPNG_def isGIF_def)
  have "sniffDimensions bytes = Some \<lparr>width = readU32LE bytes 18, height = \<bar>spec_int32LE bytes 22\<bar>\<rparr>"
    using bmp np by (auto simp add: sniffDimensions_def Let_def spec_int32LE_def readU32LE_arith [OF len])
  then have "getImageDimensions None bytes contentType
     = Inr \<lparr>width = readU32LE bytes 18, height = \<bar>spec_int32LE bytes 22\<bar>\<rparr>"
    by (simp add: getImageDimensions_def)
  then show ?thesis by simp
qed

theorem getImageDimensions_bmp_height_witness:
  "isBMP [0x42, 0x4d, 0, 0, 0, 0, 0, 0, 0, 0, 54, 0, 0, 0, 40, 0, 0, 0, 3, 0, 0, 0, 0xfe, 0xff, 0xff, 0xff]
   \<and> spec_int32LE [0x42, 0x4d, 0, 0, 0, 0, 0, 0, 0, 0, 54, 0, 0, 0, 40, 0, 0, 0, 3, 0, 0, 0, 0xfe, 0xff, 0xff, 0xff] 22 = - 2
   \<and> getImageDimensions None
        [0x42, 0x4d, 0, 0, 0, 0, 0, 0, 0, 0, 54, 0, 0, 0, 40, 0, 0, 0, 3, 0, 0, 0, 0xfe, 0xff, 0xff, 0xff]
        (js ''image/bmp'') = Inr \<lparr>width = 3, height = 2\<rparr>"
proof -
  let ?b = "[0x42, 0x4d, 0, 0, 0, 0, 0, 0, 0, 0, 54, 0, 0, 0, 40, 0, 0, 0, 3, 0, 0, 0, 0xfe, 0xff, 0xff, 0xff] :: byte list"
  have b: "isBMP ?b"
    by (simp add: isBMP_def byteAt_def)
  have h: "spec_int32LE ?b 22 = - 2"
    by (simp add: spec_int32LE_def)
  have w: "readU32LE ?b 18 = 3"
    by (simp add: readU32LE_def byteAt_def toInt32_def)
  show ?thesis
    using getImageDimensions_bmp_height [OF b, of "js ''image/bmp''"] b h w by simp
qed

subsection \<open>Markup sanitizer\<close>

lemmas sanitizer_eval = replaceAll_def js_def matchEventHandler_def matchJavascriptHref_def matchComment_def
  matchElement_def matchAttrValue_def isSpace_def isAlpha_def isDigit_def isWordChar_def toLowerChar_def
  startsWith_def startsWithCI_def boundaryAfterWord_def dquote_def squote_def Let_def
  sanitizeHtmlWithoutDom_def sanitizeHtml_def

text \<open>
  With a document, and no exception, the output is the serialization of the tree that
  the walk leaves. A second walk over a tree changes nothing.
\<close>

lemma sanitizeHtml_tree_walk:
  "parseHTML browser html = Inr fragment \<Longrightarrow>
   serializeHTML browser (sanitizeNodeTree fragment) = Inr out \<Longrightarrow>
   sanitizeHtml (Some browser) html = out"
  by (simp add: sanitizeHtml_def)

lemma sanitizeNodeTree_idempotent: "sanitizeNodeTree (sanitizeNodeTree t) = sanitizeNodeTree t"
  by (induction t rule: sanitizeNodeTree.induct) auto

text \<open>
  Claim C1 says that the output of \<open>sanitizeHtml\<close> never holds a blocked element, a
  comment, an \<open>on*\<close> attribute or a \<open>javascript:\<close> link, for both strategies. The
  code does not keep that promise. The streaming strategy makes one pass per expression,
  so what a removal joins together is not looked at again: its output here is a complete
  script element (the element expression of the source matches all 25 characters of
  it), an element with an \<open>onclick\<close> attribute, and a comment; an unquoted
  \<open>javascript:\<close> link is left as it is. The tree walk compares tag names with
  upper-case names only and tests the \<open>href\<close> value by its first characters, so it
  leaves the script element of an SVG fragment and a link whose scheme name holds a tab.
\<close>

theorem sanitizeHtml_unsafe_output:
  "sanitizeHtml None (js ''<scr<script></script>ipt>alert(1)</script>'') = js ''<script>alert(1)</script>'' \<and>
   matchElement (js ''script'') (js ''<script>alert(1)</script>'') = Some 25 \<and>
   sanitizeHtml None (js ''<a  onx='' @ [dquote] @ js ''1'' @ [dquote] @ js ''onclick=2>'') = js ''<a onclick=2>'' \<and>
   sanitizeHtml None (js ''<!-<!---->-x-->'') = js ''<!--x-->'' \<and>
   sanitizeHtml None (js ''<a href=javascript:alert(1)>x</a>'') = js ''<a href=javascript:alert(1)>x</a>'' \<and>
   sanitizeNodeTree svgScriptTree = svgScriptTree \<and>
   sanitizeNodeTree tabHrefTree = tabHrefTree"
proof -
  have tree: "sanitizeNodeTree svgScriptTree = svgScriptTree \<and> sanitizeNodeTree tabHrefTree = tabHrefTree"
    by (simp add: svgScriptTree_def tabHrefTree_def blockedTags_def dangerousAttribute_def
          startsWith_def toLowerCase_def toLowerChar_def trim_def isSpace_def js_def)
  have stream:
    "sanitizeHtml None (js ''<scr<script></script>ipt>alert(1)</script>'') = js ''<script>alert(1)</script>'' \<and>
     matchElement (js ''script'') (js ''<script>alert(1)</script>'') = Some 25 \<and>
     sanitizeHtml None (js ''<a  onx='' @ [dquote] @ js ''1'' @ [dquote] @ js ''onclick=2>'') = js ''<a onclick=2>'' \<and>
     sanitizeHtml None (js ''<!-<!---->-x-->'') = js ''<!--x-->'' \<and>
     sanitizeHtml None (js ''<a href=javascript:alert(1)>x</a>'') = js ''<a href=javascript:alert(1)>x</a>''"
    by (simp add: sanitizer_eval)
  from stream tree show ?thesis by blast
qed

text \<open>
  Claim C2 says that \<open>sanitizeHtml\<close> is idempotent. With the streaming strategy a second
  pass removes the script element that the first pass assembled, so the two results
  differ.
\<close>

theorem sanitizeHtml_streaming_not_idempotent:
  "sanitizeHtml None (js ''<scr<script></script>ipt>alert(1)</script>'') = js ''<script>alert(1)</script>'' \<and>
   sanitizeHtml None (sanitizeHtml None (js ''<scr<script></script>ipt>alert(1)</script>'')) = [] \<and>
   sanitizeHtml None (sanitizeHtml None (js ''<scr<script></script>ipt>alert(1)</script>''))
     \<noteq> sanitizeHtml None (js ''<scr<script></script>ipt>alert(1)</script>'')"
  by (simp add: sanitizer_eval)

text \<open>
  Claim C10. With a document available, when the browser's parser or its serializer
  throws, \<open>sanitizeHtml\<close> returns its input unchanged, whatever the input holds.
\<close>

theorem sanitizeHtml_error_returns_input:
  "document = Some browser \<Longrightarrow>
   parseHTML browser html = Inl e \<or>
     (\<exists>fragment. parseHTML browser html = Inr fragment \<and>
        serializeHTML browser (sanitizeNodeTree fragment) = Inl e) \<Longrightarrow>
   sanitizeHtml document html = html"
  by (auto simp: sanitizeHtml_def)

theorem sanitizeHtml_error_returns_input_witness:
  "parseHTML \<lparr>parseHTML = (\<lambda>s. Inl (Error ''parse'')), serializeHTML = (\<lambda>t. Inr [])\<rparr>
       (js ''<script>alert(1)</script>'') = Inl (Error ''parse'') \<and>
   sanitizeHtml (Some \<lparr>parseHTML = (\<lambda>s. Inl (Error ''parse'')), serializeHTML = (\<lambda>t. Inr [])\<rparr>)
       (js ''<script>alert(1)</script>'') = js ''<script>alert(1)</script>''"
  using sanitizeHtml_error_returns_input
    [of "Some \<lparr>parseHTML = (\<lambda>s. Inl (Error ''parse'')), serializeHTML = (\<lambda>t. Inr [])\<rparr>"
        "\<lparr>parseHTML = (\<lambda>s. Inl (Error ''parse'')), serializeHTML = (\<lambda>t. Inr [])\<rparr>"
        "js ''<script>alert(1)</script>''" "Error ''parse''"]
  by simp

subsection \<open>Visible content\<close>

lemma toLowerChar_eq_nonletter:
  "toLowerChar c = k \<Longrightarrow> \<not> (97 \<le> k \<and> k \<le> 122) \<Longrightarrow> c = k"
  by (auto simp: toLowerChar_def split: if_splits)

lemma skipBreakFiller_stop:
  "r = [] \<or> hd r = ch CHR ''<'' \<Longrightarrow> skipBreakFiller r = r"
  by (cases r) (auto simp: skipBreakFiller.simps [of "[]"] skipBreakFiller.simps [of "_ # _"]
      isSpace_def startsWithCI_def js_def toLowerChar_def)

lemma skipBreakFiller_fill:
  assumes "list_all wfFill fs" "r = [] \<or> hd r = ch CHR ''<''"
  shows "skipBreakFiller (concat (map renderFill fs) @ r) = r"
  using assms
proof (induction fs)
  case Nil
  then show ?case using skipBreakFiller_stop by simp
next
  case (Cons f fs)
  let ?rest = "concat (map renderFill fs) @ r"
  have ih: "skipBreakFiller ?rest = r" using Cons by simp
  show ?case
  proof (cases f)
    case (FillSpace c)
    with Cons.prems have "isSpace c" by simp
    then have "skipBreakFiller (c # ?rest) = skipBreakFiller ?rest"
      by (subst skipBreakFiller.simps) simp
    with ih FillSpace show ?thesis by simp
  next
    case (FillEntity t)
    with Cons.prems have t: "map toLowerChar t = js ''&nbsp;''" by simp
    then have len: "length t = 6"
      using length_map [of toLowerChar t] by (simp add: js_def)
    then obtain a t' where tt: "t = a # t'" by (cases t) auto
    have "toLowerChar a = 38" using t tt by (simp add: js_def)
    then have a: "a = 38" by (rule toLowerChar_eq_nonletter) simp
    have ns: "\<not> isSpace a" using a by (simp add: isSpace_def)
    have sw: "startsWithCI (t @ ?rest) (js ''&nbsp;'')"
      using t len by (simp add: startsWithCI_def js_def toLowerChar_def)
    have "skipBreakFiller (t @ ?rest) = skipBreakFiller (drop 6 (t @ ?rest))"
      using ns sw tt by (subst skipBreakFiller.simps) (simp add: js_def)
    then show ?thesis using ih len FillEntity by simp
  qed
qed

lemma dropWhile_spaces_then:
  "list_all isSpace w \<Longrightarrow> \<not> isSpace x \<Longrightarrow> dropWhile isSpace (w @ x # xs) = x # xs"
  by (induction w) auto

lemma matchBreak_render:
  assumes "wfBreak b" "r = [] \<or> hd r = ch CHR ''<''"
  shows "matchBreak (renderBreak b @ r) = Some r"
proof -
  let ?fill = "concat (map renderFill (breakFiller b))"
  from assms have t: "map toLowerChar (breakTag b) = js ''<br''"
    and w: "list_all isSpace (breakSpace b)" and f: "list_all wfFill (breakFiller b)"
    by (simp_all add: wfBreak_def)
  have len: "length (breakTag b) = 3"
    using t length_map [of toLowerChar "breakTag b"] by (simp add: js_def)
  have sw: "startsWithCI (renderBreak b @ r) (js ''<br'')"
    using t len by (simp add: startsWithCI_def renderBreak_def js_def toLowerChar_def)
  have d3: "drop 3 (renderBreak b @ r)
      = breakSpace b @ (if breakSlash b then js ''/'' else []) @ js ''>'' @ ?fill @ r"
    using len by (simp add: renderBreak_def)
  have fill: "skipBreakFiller (?fill @ r) = r"
    by (rule skipBreakFiller_fill [OF f assms(2)])
  show ?thesis
  proof (cases "breakSlash b")
    case True
    have "dropWhile isSpace (breakSpace b @ 47 # 62 # ?fill @ r) = 47 # 62 # ?fill @ r"
      by (rule dropWhile_spaces_then [OF w]) (simp add: isSpace_def)
    then show ?thesis
      using sw d3 True fill by (simp add: matchBreak_def js_def startsWith_def Let_def)
  next
    case False
    have "dropWhile isSpace (breakSpace b @ 62 # ?fill @ r) = 62 # ?fill @ r"
      by (rule dropWhile_spaces_then [OF w]) (simp add: isSpace_def)
    then show ?thesis
      using sw d3 False fill by (simp add: matchBreak_def js_def startsWith_def Let_def)
  qed
qed

lemma renderBreak_hd:
  assumes "wfBreak b"
  shows "renderBreak b \<noteq> [] \<and> hd (renderBreak b) = ch CHR ''<''"
proof -
  from assms have t: "map toLowerChar (breakTag b) = js ''<br''" by (simp add: wfBreak_def)
  then obtain a t' where tt: "breakTag b = a # t'" by (cases "breakTag b") (auto simp: js_def)
  have "toLowerChar a = 60" using t tt by (simp add: js_def)
  then have "a = 60" by (rule toLowerChar_eq_nonletter) simp
  then show ?thesis using tt by (simp add: renderBreak_def)
qed

lemma onlyLineBreaks_render:
  "bs \<noteq> [] \<Longrightarrow> list_all wfBreak bs \<Longrightarrow> onlyLineBreaks (renderBreaks bs)"
proof (induction bs)
  case Nil
  then show ?case by simp
next
  case (Cons b bs)
  then have wb: "wfBreak b" by simp
  show ?case
  proof (cases bs)
    case Nil
    have "matchBreak (renderBreak b @ []) = Some []"
      by (rule matchBreak_render [OF wb]) simp
    then show ?thesis using Nil
      by (subst onlyLineBreaks.simps) (simp add: renderBreaks_def)
  next
    case (Cons b' bs')
    let ?r = "renderBreaks bs"
    have wb': "wfBreak b'" using Cons.prems Cons by simp
    have r: "?r \<noteq> [] \<and> hd ?r = ch CHR ''<''"
      using renderBreak_hd [OF wb'] Cons by (simp add: renderBreaks_def)
    have m: "matchBreak (renderBreak b @ ?r) = Some ?r"
      by (rule matchBreak_render [OF wb]) (use r in simp)
    have ih: "onlyLineBreaks ?r"
      using Cons.IH Cons.prems Cons by simp
    have "length ?r < length (renderBreak b @ ?r)"
      using renderBreak_hd [OF wb] by simp
    then show ?thesis using m ih r
      by (subst onlyLineBreaks.simps) (simp add: renderBreaks_def)
  qed
qed

lemmas content_eval = sanitizeAndCheck_def hasHtmlContent_def hasHtmlContentWithoutDom_def normalizedHtml_def
  strippedText_def matchTag_def matchSpaces_def trim_def renderingTagAt_def renderingTags_def
  onlyLineBreaks.simps matchBreak_def skipBreakFiller.simps

lemma hasHtmlContentWithoutDom_counts_breaks: "hasHtmlContentWithoutDom (js ''<br><br>'')"
  by (simp add: content_eval sanitizer_eval)

text \<open>
  Claim C5. The visible-content check is the \<open>hasContent\<close> that \<open>sanitizeAndCheck\<close>
  reports. It is false for every input made only of line breaks with white space or
  non-breaking spaces between them, in every environment, and so for \<open><br><br>\<close>; the
  special case is made by \<open>sanitizeAndCheck\<close> itself, before anything else, since
  \<open>hasHtmlContentWithoutDom\<close> alone counts a line break as content. The check is true
  whenever the visible text that \<open>hasHtmlContentWithoutDom\<close> computes (comments, script
  and style elements and tags removed, white space collapsed and trimmed) is not empty,
  and so for \<open><p>hi</p>\<close>.
\<close>

theorem visible_content_check:
  "(bs \<noteq> [] \<and> list_all wfBreak bs \<longrightarrow>
      sanitizeAndCheck document (renderBreaks bs) = Inr \<lparr>sanitized = [], hasContent = False\<rparr>) \<and>
   (strippedText (normalizedHtml html) \<noteq> [] \<longrightarrow> hasHtmlContentWithoutDom html) \<and>
   (\<not> onlyLineBreaks html \<and> strippedText (normalizedHtml (sanitizeHtmlWithoutDom html)) \<noteq> [] \<longrightarrow>
      sanitizeAndCheck None html = Inr \<lparr>sanitized = sanitizeHtmlWithoutDom html, hasContent = True\<rparr>) \<and>
   sanitizeAndCheck None (js ''<br><br>'') = Inr \<lparr>sanitized = [], hasContent = False\<rparr> \<and>
   sanitizeAndCheck None (js ''<p>hi</p>'') = Inr \<lparr>sanitized = js ''<p>hi</p>'', hasContent = True\<rparr>"
proof -
  have empty: "strippedText [] = []"
    by (simp add: strippedText_def replaceAll_def matchTag_def matchSpaces_def trim_def)
  have vis: "strippedText (normalizedHtml h) \<noteq> [] \<Longrightarrow> hasHtmlContentWithoutDom h" for h
    using empty by (auto simp: hasHtmlContentWithoutDom_def Let_def)
  have 1: "bs \<noteq> [] \<and> list_all wfBreak bs \<longrightarrow>
      sanitizeAndCheck document (renderBreaks bs) = Inr \<lparr>sanitized = [], hasContent = False\<rparr>"
    using onlyLineBreaks_render [of bs] by (simp add: sanitizeAndCheck_def)
  have 3: "\<not> onlyLineBreaks html \<and> strippedText (normalizedHtml (sanitizeHtmlWithoutDom html)) \<noteq> [] \<longrightarrow>
      sanitizeAndCheck None html = Inr \<lparr>sanitized = sanitizeHtmlWithoutDom html, hasContent = True\<rparr>"
    using vis [of "sanitizeHtmlWithoutDom html"]
    by (simp add: sanitizeAndCheck_def hasHtmlContent_def sanitizeHtml_def)
  have 4: "sanitizeAndCheck None (js ''<br><br>'') = Inr \<lparr>sanitized = [], hasContent = False\<rparr>"
    by (simp add: content_eval sanitizer_eval)
  have 5: "sanitizeAndCheck None (js ''<p>hi</p>'') = Inr \<lparr>sanitized = js ''<p>hi</p>'', hasContent = True\<rparr>"
    by (simp add: content_eval sanitizer_eval)
  from 1 vis [of html] 3 4 5 show ?thesis by blast
qed

theorem visible_content_check_witness:
  "[\<lparr>breakTag = js ''<BR'', breakSpace = js '' '', breakSlash = True,
      breakFiller = [FillEntity (js ''&nbsp;''), FillSpace 160, FillSpace 10]\<rparr>,
    \<lparr>breakTag = js ''<br'', breakSpace = [], breakSlash = False, breakFiller = []\<rparr>] \<noteq> [] \<and>
   list_all wfBreak
     [\<lparr>breakTag = js ''<BR'', breakSpace = js '' '', breakSlash = True,
        breakFiller = [FillEntity (js ''&nbsp;''), FillSpace 160, FillSpace 10]\<rparr>,
      \<lparr>breakTag = js ''<br'', breakSpace = [], breakSlash = False, breakFiller = []\<rparr>] \<and>
   sanitizeAndCheck None (js ''<BR />&nbsp;'' @ [160, 10] @ js ''<br>'')
     = Inr \<lparr>sanitized = [], hasContent = False\<rparr> \<and>
   strippedText (normalizedHtml (js ''<p>hi</p>'')) \<noteq> [] \<and>
   hasHtmlContentWithoutDom (js ''<p>hi</p>'') \<and>
   \<not> onlyLineBreaks (js ''<p>hi</p>'') \<and>
   strippedText (normalizedHtml (sanitizeHtmlWithoutDom (js ''<p>hi</p>''))) \<noteq> [] \<and>
   sanitizeAndCheck None (js ''<p>hi</p>'') = Inr \<lparr>sanitized = js ''<p>hi</p>'', hasContent = True\<rparr>"
proof -
  let ?bs = "[\<lparr>breakTag = js ''<BR'', breakSpace = js '' '', breakSlash = True,
      breakFiller = [FillEntity (js ''&nbsp;''), FillSpace 160, FillSpace 10]\<rparr>,
    \<lparr>breakTag = js ''<br'', breakSpace = [], breakSlash = False, breakFiller = []\<rparr>]"
  have wf: "list_all wfBreak ?bs"
    by (simp add: wfBreak_def js_def toLowerChar_def isSpace_def)
  have r: "renderBreaks ?bs = js ''<BR />&nbsp;'' @ [160, 10] @ js ''<br>''"
    by (simp add: renderBreaks_def renderBreak_def js_def)
  have t: "strippedText (normalizedHtml (js ''<p>hi</p>'')) \<noteq> []"
    by (simp add: content_eval sanitizer_eval)
  have s: "sanitizeHtmlWithoutDom (js ''<p>hi</p>'') = js ''<p>hi</p>''"
    by (simp add: sanitizer_eval)
  have n: "\<not> onlyLineBreaks (js ''<p>hi</p>'')"
    by (simp add: content_eval sanitizer_eval)
  show ?thesis
    using visible_content_check [of ?bs None "js ''<p>hi</p>''"] wf r t s n by simp
qed

subsection \<open>Highlight runs\<close>

lemma find_append_case:
  "List.find P (xs @ ys) = (case List.find P xs of None \<Rightarrow> List.find P ys | Some x \<Rightarrow> Some x)"
  by (induction xs) auto

lemma properThemeD:
  assumes "properTheme cc" "tableEntry cc name = Some c"
  shows "name \<noteq> []" "remove1 (ch CHR ''#'') c \<noteq> []"
proof -
  from assms show "name \<noteq> []"
    by (auto simp: properTheme_def)
  from assms(2) have "c \<in> ran (tableEntry cc)"
    by (auto simp: ran_def)
  with assms(1) show "remove1 (ch CHR ''#'') c \<noteq> []"
    by (metis image_eqI properTheme_def)
qed

lemma getProperty_plain:
  "name \<notin> set objectPrototypeNames \<Longrightarrow>
   getProperty (colors cc) name = (case tableEntry cc name of None \<Rightarrow> Undefined | Some v \<Rightarrow> StringValue v)"
  by (simp add: getProperty_def tableEntry_def split: option.splits)

lemma tokenColor_find:
  assumes "properTheme cc"
  shows "plainTokens tokens \<Longrightarrow> tokenColor cc tokens =
     Inr (map_option (\<lambda>t. remove1 (ch CHR ''#'') (the (tableEntry cc (specTokenName t))))
       (List.find (\<lambda>t. tableEntry cc (specTokenName t) \<noteq> None) tokens))"
proof (induction tokens)
  case Nil
  then show ?case by simp
next
  case (Cons t ts)
  have ih: "tokenColor cc ts =
     Inr (map_option (\<lambda>t. remove1 (ch CHR ''#'') (the (tableEntry cc (specTokenName t))))
       (List.find (\<lambda>t. tableEntry cc (specTokenName t) \<noteq> None) ts))"
    using Cons by (simp add: plainTokens_def)
  have plain: "specTokenName t \<notin> set objectPrototypeNames"
    using Cons.prems by (simp add: plainTokens_def)
  have none: "tableEntry cc [] = None"
    using properThemeD(1) [OF assms, of "[]"] by (cases "tableEntry cc []") auto
  have name: "specTokenName t = normalizeToken (if startsWith t (js ''hljs-'') then drop 5 t else t)"
    by (simp add: specTokenName_def normalizeToken_def startsWith_def js_def eval_nat_numeral)
  have look: "getProperty (colors cc) (normalizeToken (if startsWith t (js ''hljs-'') then drop 5 t else t))
      = (case tableEntry cc (specTokenName t) of None \<Rightarrow> Undefined | Some v \<Rightarrow> StringValue v)"
    using getProperty_plain [OF plain, of cc] name by simp
  show ?case
  proof (cases "tableEntry cc (specTokenName t)")
    case None
    then show ?thesis
      using ih look name none by (auto simp: Let_def normalizeToken_def)
  next
    case (Some c)
    then have "specTokenName t \<noteq> [] \<and> remove1 (ch CHR ''#'') c \<noteq> []"
      using properThemeD [OF assms] by blast
    then have c: "c \<noteq> []" and n: "specTokenName t \<noteq> []"
      by auto
    have "specTokenName [] = []"
      by (simp add: specTokenName_def)
    with n have "t \<noteq> []" by auto
    moreover have "(if startsWith t (js ''hljs-'') then drop 5 t else t) \<noteq> []"
      using n unfolding name normalizeToken_def by (simp del: drop_eq_Nil)
    ultimately have "t \<noteq> []" "(if startsWith t (js ''hljs-'') then drop 5 t else t) \<noteq> []" .
    then show ?thesis
      using Some c look by (simp add: Let_def)
  qed
qed

lemma firstColor_find:
  assumes "properTheme (hlColors h)"
  shows "plainTokens (concat frames) \<Longrightarrow> firstColor (themeGetColor h) frames =
     Inr (map_option (\<lambda>t. remove1 (ch CHR ''#'') (the (tableEntry (hlColors h) (specTokenName t))))
       (List.find (\<lambda>t. tableEntry (hlColors h) (specTokenName t) \<noteq> None) (concat frames)))"
proof (induction frames)
  case Nil
  then show ?case by simp
next
  case (Cons f fs)
  have pf: "plainTokens f" and pfs: "plainTokens (concat fs)"
    using Cons.prems by (simp_all add: plainTokens_def)
  have g: "themeGetColor h (Some f) = tokenColor (hlColors h) f"
    by (simp add: themeGetColor_def getHighlightColor_def)
  note tf = tokenColor_find [OF assms pf]
  show ?case
  proof (cases "List.find (\<lambda>t. tableEntry (hlColors h) (specTokenName t) \<noteq> None) f")
    case None
    then show ?thesis
      using Cons.IH [OF pfs] g tf by (simp add: find_append_case)
  next
    case (Some t)
    then have "tableEntry (hlColors h) (specTokenName t) \<noteq> None"
      by (auto simp: find_Some_iff)
    then obtain v where v: "tableEntry (hlColors h) (specTokenName t) = Some v" by auto
    then have "remove1 (ch CHR ''#'') v \<noteq> []"
      using properThemeD(2) [OF assms] by blast
    then show ?thesis
      using Some g tf v by (simp add: find_append_case)
  qed
qed


text \<open>
  For a proper theme and plain tokens the code resolves colors as the specification
  describes: scopes from the innermost outwards, each token under its normalized name,
  the first token with a configured color, else the foreground. This is the color that
  \<open>flush\<close> hands on with the text it has gathered, at any depth of the stack.
\<close>

lemma currentColor_resolution:
  "properTheme (hlColors h) \<Longrightarrow> plainTokens (concat stack) \<Longrightarrow>
   currentColor (themeGetColor h) (foreground (hlColors h)) stack
     = Inr (specResolvedColor (hlColors h) stack)"
proof -
  assume p: "properTheme (hlColors h)" and q: "plainTokens (concat stack)"
  have "plainTokens (concat (rev stack))"
    using q by (auto simp: plainTokens_def list_all_iff)
  from firstColor_find [OF p this] show ?thesis
    by (simp add: currentColor_def specResolvedColor_def split: option.splits)
qed


lemma flush_resolution:
  "properTheme (hlColors h) \<Longrightarrow> plainTokens (concat stack) \<Longrightarrow> buffer \<noteq> [] \<Longrightarrow>
   flush (themeGetColor h) (appendCodeTextRuns h) (foreground (hlColors h)) stack (buffer, runs)
     = Inr ([], appendCodeTextRuns h (decodeHtmlEntities buffer) runs
                  (Some (specResolvedColor (hlColors h) stack)))"
  by (simp add: flush_def currentColor_resolution)

text \<open>The only exception of the color lookup is the \<open>TypeError\<close>.\<close>

lemma tokenColor_error: "tokenColor cc tokens = Inl e \<Longrightarrow> e = TypeError"
  by (induction tokens) (auto simp: Let_def split: if_splits property.splits)

lemma themeGetColor_error: "themeGetColor h cls = Inl e \<Longrightarrow> e = TypeError"
  by (auto simp: themeGetColor_def getHighlightColor_def tokenColor_error split: option.splits)

lemma firstColor_error:
  "\<forall>cls e. getColor cls = Inl e \<longrightarrow> e = TypeError \<Longrightarrow> firstColor getColor frames = Inl e \<Longrightarrow> e = TypeError"
  by (induction frames) (auto split: sum.splits option.splits if_splits)

lemma flush_error:
  "\<forall>cls e. getColor cls = Inl e \<longrightarrow> e = TypeError \<Longrightarrow>
   flush getColor appendRuns defaultColor stack state = Inl e \<Longrightarrow> e = TypeError"
  using firstColor_error [of getColor "rev stack" e]
  by (auto simp: flush_def currentColor_def split: prod.splits if_splits sum.splits option.splits)

lemmas highlight_eval = appendHighlightedRunsFromHtml_def scanHtml.simps flush_def currentColor_def
  decodeHtmlEntities_def matchEntity_def appendCodeTextRuns_def orElse_def codeRun_def breakRun_def
  spanClasses_def classAttributeAt_def trim_def toLowerCase_def themeGetColor_def getHighlightColor_def
  getProperty_def objectPrototypeNames_def
  normalizeToken_def js_def isSpace_def isAlpha_def isDigit_def isWordChar_def toLowerChar_def
  startsWith_def startsWithCI_def dquote_def squote_def Let_def

lemma splitLines_nonempty: "splitLines piece t \<noteq> []"
  by (induction t arbitrary: piece) auto

lemma splitLines_join: "joinLines (splitLines piece t) = piece @ t"
proof (induction t arbitrary: piece)
  case Nil
  then show ?case by simp
next
  case (Cons c t)
  show ?case
  proof (cases "c = 10")
    case True
    obtain l ls where s: "splitLines [] t = l # ls"
      using splitLines_nonempty [of "[]" t] by (cases "splitLines [] t") auto
    have "joinLines (splitLines [] t) = t" using Cons [of "[]"] by simp
    then show ?thesis using True s by simp
  next
    case False
    then show ?thesis using Cons [of "piece @ [c]"] by simp
  qed
qed

lemma splitLines_no_newline:
  "10 \<notin> set piece \<Longrightarrow> \<forall>l \<in> set (splitLines piece t). 10 \<notin> set l"
proof (induction t arbitrary: piece)
  case Nil
  then show ?case by simp
next
  case (Cons c t)
  show ?case
  proof (cases "c = 10")
    case True
    have "\<forall>l \<in> set (splitLines [] t). 10 \<notin> set l"
      by (rule Cons.IH) simp
    then show ?thesis using True Cons.prems by simp
  next
    case False
    have "\<forall>l \<in> set (splitLines (piece @ [c]) t). 10 \<notin> set l"
      by (rule Cons.IH) (use False Cons.prems in simp)
    then show ?thesis using False by simp
  qed
qed

lemma pushSegments_spec:
  "index + length segments = Suc lastIndex \<Longrightarrow>
   pushSegments h color lastIndex index segments runs = runs @ specLineRuns h color segments"
proof (induction segments arbitrary: index runs)
  case Nil
  then show ?case by simp
next
  case (Cons s ss)
  show ?case
  proof (cases ss)
    case Nil
    then show ?thesis using Cons.prems by (simp add: Let_def)
  next
    case (Cons s' ss')
    then have "index < lastIndex" "Suc index + length ss = Suc lastIndex"
      using Cons.prems by simp_all
    then show ?thesis
      using Cons.IH [of "Suc index"] Cons by (simp add: Let_def)
  qed
qed

lemma appendCodeTextRuns_spec:
  "appendCodeTextRuns h t runs color = runs @ specLineRuns h (appliedColor h color) (splitLines [] t)"
proof (cases "t = []")
  case True
  then show ?thesis by (simp add: appendCodeTextRuns_def)
next
  case False
  have "0 + length (splitLines [] t) = Suc (length (splitLines [] t) - 1)"
    using splitLines_nonempty [of "[]" t] by (cases "splitLines [] t") auto
  from pushSegments_spec [OF this] False show ?thesis
    by (simp add: appendCodeTextRuns_def Let_def appliedColor_def orElse_def split: option.splits)
qed

lemma specLineRuns_newlineFree:
  "\<forall>l \<in> set ls. 10 \<notin> set l \<Longrightarrow> newlineFree (specLineRuns h color ls)"
  by (induction h color ls rule: specLineRuns.induct)
     (auto simp: newlineFree_def codeRun_def breakRun_def)

lemma appendCodeTextRuns_newlineFree:
  "newlineFree runs \<Longrightarrow> newlineFree (appendCodeTextRuns h t runs color)"
  using specLineRuns_newlineFree [OF splitLines_no_newline [of "[]" t], of h "appliedColor h color"]
  by (simp add: appendCodeTextRuns_spec newlineFree_def)


lemmas runs_eval = getHighlightedRunsForCode_def createCodeHighlighter_def DEFAULT_CODE_COLORS_def
  DEFAULT_CODE_STYLE_def entityText_def parseInt_def isFinite_def doubleOverflow_def digitValue_def
  fromCodePoint_def isHexDigit_def tokenColor.simps


lemma flush_newlineFree:
  assumes "\<forall>t rs c. newlineFree rs \<longrightarrow> newlineFree (appendRuns t rs c)" "newlineFree runs"
    "flush getColor appendRuns defaultColor stack (buffer, runs) = Inr flushed"
  shows "newlineFree (snd flushed)"
  using assms by (auto simp: flush_def split: if_splits sum.splits)

lemma scanHtml_newlineFree:
  "\<forall>t rs c. newlineFree rs \<longrightarrow> newlineFree (appendRuns t rs c) \<Longrightarrow> newlineFree runs \<Longrightarrow>
   scanHtml getColor appendRuns defaultColor stack buffer runs html = Inr out \<Longrightarrow> newlineFree out"
proof (induction getColor appendRuns defaultColor stack buffer runs html rule: scanHtml.induct)
  case (1 getColor appendRuns defaultColor stack buffer runs)
  then show ?case
    using flush_newlineFree [of appendRuns runs getColor defaultColor stack buffer]
    by (auto simp: scanHtml.simps split: sum.splits)
next
  case (2 getColor appendRuns defaultColor stack buffer runs c rest)
  note ap = "2.prems"(1)
  note res = "2.prems"(3)
  have fl: "newlineFree (snd flushed)"
    if "flush getColor appendRuns defaultColor stack (b, runs) = Inr flushed" for b flushed
    using flush_newlineFree [OF ap "2.prems"(2) that] .
  show ?case
  proof (cases "c \<noteq> ch CHR ''<''")
    case True
    then show ?thesis
      using "2.IH"(1) [OF True ap "2.prems"(2)] res by (subst (asm) scanHtml.simps) simp
  next
    case False
    show ?thesis
    proof (cases "indexOf (ch CHR ''>'') rest")
      case None
      then show ?thesis
        using False fl res by (subst (asm) scanHtml.simps) (auto split: sum.splits)
    next
      case (Some k)
      let ?rawTag = "trim (take k rest)"
      let ?tag = "toLowerCase ?rawTag"
      let ?flushed = "(if startsWith ?tag (js ''span'') \<or> ?tag = js ''/span'' \<or> startsWith ?tag (js ''br'')
                    then flush getColor appendRuns defaultColor stack (buffer, runs)
                    else Inr (buffer, runs))"
      from res False Some obtain flushed where f: "?flushed = Inr flushed"
        by (subst (asm) scanHtml.simps) (auto simp: Let_def split: sum.splits)
      have nf: "newlineFree (snd flushed)"
        using f fl "2.prems"(2) by (auto split: if_splits)
      show ?thesis
        using False Some nf ap f res
          "2.IH"(2) [OF _ Some refl refl f _ ap nf]
          "2.IH"(3) [OF _ Some refl refl f _ _ ap nf]
          "2.IH"(4) [OF _ Some refl refl f _ _ _ ap nf]
          "2.IH"(5) [OF _ Some refl refl f _ _ _ ap nf]
        by (subst (asm) scanHtml.simps) (simp add: Let_def split: if_splits)
    qed
  qed
qed

lemma scanHtml_error:
  "\<forall>cls e. getColor cls = Inl e \<longrightarrow> e = TypeError \<Longrightarrow>
   scanHtml getColor appendRuns defaultColor stack buffer runs html = Inl e \<Longrightarrow> e = TypeError"
proof (induction getColor appendRuns defaultColor stack buffer runs html rule: scanHtml.induct)
  case (1 getColor appendRuns defaultColor stack buffer runs)
  then show ?case
    using flush_error [of getColor appendRuns defaultColor stack "(buffer, runs)" e]
    by (auto simp: scanHtml.simps split: sum.splits)
next
  case (2 getColor appendRuns defaultColor stack buffer runs c rest)
  note gc = "2.prems"(1)
  note res = "2.prems"(2)
  have fl: "e' = TypeError"
    if "flush getColor appendRuns defaultColor stack st = Inl e'" for st e'
    using flush_error [OF gc that] .
  show ?case
  proof (cases "c \<noteq> ch CHR ''<''")
    case True
    then show ?thesis
      using "2.IH"(1) [OF True gc] res by (subst (asm) scanHtml.simps) simp
  next
    case False
    show ?thesis
    proof (cases "indexOf (ch CHR ''>'') rest")
      case None
      then show ?thesis
        using False fl res by (subst (asm) scanHtml.simps) (auto split: sum.splits)
    next
      case (Some k)
      let ?rawTag = "trim (take k rest)"
      let ?tag = "toLowerCase ?rawTag"
      let ?flushed = "(if startsWith ?tag (js ''span'') \<or> ?tag = js ''/span'' \<or> startsWith ?tag (js ''br'')
                    then flush getColor appendRuns defaultColor stack (buffer, runs)
                    else Inr (buffer, runs))"
      show ?thesis
      proof (cases ?flushed)
        case (Inl e')
        then have "e' = TypeError" using fl by (auto split: if_splits)
        moreover have "e = e'"
          using res False Some Inl by (subst (asm) scanHtml.simps) (simp add: Let_def)
        ultimately show ?thesis by simp
      next
        case (Inr flushed)
        note f = Inr
        show ?thesis
          using False Some gc f res
            "2.IH"(2) [OF _ Some refl refl f _ gc]
            "2.IH"(3) [OF _ Some refl refl f _ _ gc]
            "2.IH"(4) [OF _ Some refl refl f _ _ _ gc]
            "2.IH"(5) [OF _ Some refl refl f _ _ _ gc]
          by (subst (asm) scanHtml.simps) (simp add: Let_def split: if_splits)
      qed
    qed
  qed
qed


lemma collectHighlightedRuns_newlineFree:
  "newlineFree runs \<Longrightarrow> collectHighlightedRuns h ns runs inheritedColor = Inr out \<Longrightarrow> newlineFree out"
proof (induction h ns runs inheritedColor arbitrary: out rule: collectHighlightedRuns.induct)
  case (1 h runs inheritedColor)
  then show ?case by simp
next
  case (2 h v ns runs inheritedColor)
  then show ?case by (simp add: appendCodeTextRuns_newlineFree)
next
  case (3 h tag cls attrs kids ns runs inheritedColor)
  let ?inh = "(case inheritedColor of None \<Rightarrow> Some (foreground (hlColors h)) | Some c \<Rightarrow> Some c)"
  from "3.prems"(2) obtain found where g: "getHighlightColor h (ClassTokens cls) = Inr found"
    by (cases "getHighlightColor h (ClassTokens cls)") (simp_all add: Let_def)
  let ?next = "orElse (orElse found ?inh) ?inh"
  from "3.prems"(2) g obtain runs1
    where k: "collectHighlightedRuns h kids runs ?next = Inr runs1"
      and n: "collectHighlightedRuns h ns runs1 inheritedColor = Inr out"
    by (cases "collectHighlightedRuns h kids runs ?next") (simp_all add: Let_def)
  have "newlineFree runs1"
    using "3.IH"(1) [OF refl g refl refl "3.prems"(1) k] .
  then show ?case
    using "3.IH"(2) [OF refl g refl refl k _ n] by simp
qed simp_all

text \<open>
  Claim C6 says that the color of every stack of class tokens is the first configured
  color found from the innermost scope outwards, and the foreground when no token
  resolves. The code breaks this for a token that names a property which the color table
  inherits, such as \<open>hljs-constructor\<close> or \<open>toString\<close>: the table has no entry of
  that name, so the specification resolves the stack to the foreground, but the lookup
  finds the inherited value and \<open>getHighlightColor\<close> throws, and so do the tokenizer
  and \<open>getHighlightedRunsForCode\<close>. The scenario of the claim itself comes out as
  stated, also with a second scope nested in the first.
\<close>

theorem getHighlightColor_inherited_name_throws:
  "getHighlightColor keywordTheme (ClassTokens [js ''hljs-constructor'']) = Inl TypeError \<and>
   getHighlightColor (createCodeHighlighter None) (ClassString (js ''hljs-title toString'')) = Inl TypeError \<and>
   currentColor (themeGetColor keywordTheme) (js ''24292E'') [[js ''hljs-constructor'']] = Inl TypeError \<and>
   specResolvedColor (hlColors keywordTheme) [[js ''hljs-constructor'']] = js ''24292E'' \<and>
   appendHighlightedRunsFromHtml
       (js ''<span class='' @ [dquote] @ js ''hljs-constructor'' @ [dquote] @ js ''>Some</span>(x)'') []
       (themeGetColor keywordTheme) (appendCodeTextRuns keywordTheme) (js ''24292E'') = Inl TypeError \<and>
   getHighlightedRunsForCode keywordTheme constructorEngine None (js ''Some(x)'') (Some (js ''ml''))
     = Inl TypeError \<and>
   appendHighlightedRunsFromHtml
       (js ''<span class='' @ [dquote] @ js ''hljs-keyword'' @ [dquote] @ js ''>if</span> x'') []
       (themeGetColor keywordTheme) (appendCodeTextRuns keywordTheme) (js ''24292E'')
     = Inr [codeRun keywordTheme (js ''if'') (js ''FF0000''), codeRun keywordTheme (js '' x'') (js ''24292E'')] \<and>
   appendHighlightedRunsFromHtml
       (js ''<span class='' @ [dquote] @ js ''hljs-keyword'' @ [dquote] @ js ''><span class=''
          @ [dquote] @ js ''hljs-built_in'' @ [dquote] @ js ''>a</span>b</span>c'') []
       (themeGetColor keywordTheme) (appendCodeTextRuns keywordTheme) (js ''24292E'')
     = Inr [codeRun keywordTheme (js ''a'') (js ''FF0000''), codeRun keywordTheme (js ''b'') (js ''FF0000''),
            codeRun keywordTheme (js ''c'') (js ''24292E'')]"
proof -
  have 1: "getHighlightColor keywordTheme (ClassTokens [js ''hljs-constructor'']) = Inl TypeError"
    by (simp add: keywordTheme_def highlight_eval)
  have 2: "getHighlightColor (createCodeHighlighter None) (ClassString (js ''hljs-title toString'')) = Inl TypeError"
    by (simp add: runs_eval highlight_eval)
  have 3: "currentColor (themeGetColor keywordTheme) (js ''24292E'') [[js ''hljs-constructor'']] = Inl TypeError"
    by (simp add: keywordTheme_def highlight_eval)
  have 4: "specResolvedColor (hlColors keywordTheme) [[js ''hljs-constructor'']] = js ''24292E''"
    by (simp add: keywordTheme_def specResolvedColor_def specTokenName_def tableEntry_def js_def)
  have 5: "appendHighlightedRunsFromHtml
       (js ''<span class='' @ [dquote] @ js ''hljs-constructor'' @ [dquote] @ js ''>Some</span>(x)'') []
       (themeGetColor keywordTheme) (appendCodeTextRuns keywordTheme) (js ''24292E'') = Inl TypeError"
    by (simp add: keywordTheme_def highlight_eval)
  have 6: "getHighlightedRunsForCode keywordTheme constructorEngine None (js ''Some(x)'') (Some (js ''ml''))
     = Inl TypeError"
    by (simp add: keywordTheme_def constructorEngine_def runs_eval highlight_eval)
  have 7: "appendHighlightedRunsFromHtml
       (js ''<span class='' @ [dquote] @ js ''hljs-keyword'' @ [dquote] @ js ''>if</span> x'') []
       (themeGetColor keywordTheme) (appendCodeTextRuns keywordTheme) (js ''24292E'')
     = Inr [codeRun keywordTheme (js ''if'') (js ''FF0000''), codeRun keywordTheme (js '' x'') (js ''24292E'')]"
    by (simp add: keywordTheme_def highlight_eval)
  have 8: "appendHighlightedRunsFromHtml
       (js ''<span class='' @ [dquote] @ js ''hljs-keyword'' @ [dquote] @ js ''><span class=''
          @ [dquote] @ js ''hljs-built_in'' @ [dquote] @ js ''>a</span>b</span>c'') []
       (themeGetColor keywordTheme) (appendCodeTextRuns keywordTheme) (js ''24292E'')
     = Inr [codeRun keywordTheme (js ''a'') (js ''FF0000''), codeRun keywordTheme (js ''b'') (js ''FF0000''),
            codeRun keywordTheme (js ''c'') (js ''24292E'')]"
    by (simp add: keywordTheme_def highlight_eval)
  from 1 2 3 4 5 6 7 8 show ?thesis by blast
qed


text \<open>
  Claim C7. Whatever the code, the language, the engine's markup and the environment
  are, no run that \<open>getHighlightedRunsForCode\<close> returns holds a newline in its text;
  without a document it returns its runs unless the color lookup throws its
  \<open>TypeError\<close>. \<open>appendCodeTextRuns\<close> appends exactly the runs of the lines of its
  text: one run per line that is not empty, in the applied color, and one break marker
  between consecutive lines, so an empty line leaves its marker and no run.
\<close>

theorem buildRuns_no_newline:
  "(getHighlightedRunsForCode h hljs document code language = Inr runs \<longrightarrow>
      (\<forall>r \<in> set runs. 10 \<notin> set (run_text r))) \<and>
   ((\<exists>rs. getHighlightedRunsForCode h hljs None code language = Inr rs) \<or>
      getHighlightedRunsForCode h hljs None code language = Inl TypeError) \<and>
   (\<exists>lines. (\<forall>l \<in> set lines. 10 \<notin> set l) \<and> joinLines lines = t \<and>
      appendCodeTextRuns h t rs0 color = rs0 @ specLineRuns h (appliedColor h color) lines)"
proof -
  have ap: "\<forall>t rs c. newlineFree rs \<longrightarrow> newlineFree (appendCodeTextRuns h t rs c)"
    by (simp add: appendCodeTextRuns_newlineFree)
  have e: "newlineFree []" by (simp add: newlineFree_def)
  have 1: "newlineFree runs" if r: "getHighlightedRunsForCode h hljs document code language = Inr runs"
  proof (cases "code = []")
    case True
    with r show ?thesis by (auto simp: getHighlightedRunsForCode_def newlineFree_def)
  next
    case False
    have a: "newlineFree (appendCodeTextRuns h code [] c)" for c
      using ap e by blast
    have b: "newlineFree out" if "collectHighlightedRuns h ns [] c = Inr out" for ns c out
      using collectHighlightedRuns_newlineFree [OF e that] .
    have c: "newlineFree out"
      if "appendHighlightedRunsFromHtml v [] g (appendCodeTextRuns h) d = Inr out" for v g d out
      using that unfolding appendHighlightedRunsFromHtml_def by (rule scanHtml_newlineFree [OF ap e])
    from r False show ?thesis
      using a b c
      by (auto simp: getHighlightedRunsForCode_def Let_def split: option.splits sum.splits if_splits)
  qed
  have gc: "\<forall>cls e. themeGetColor h cls = Inl e \<longrightarrow> e = TypeError"
    using themeGetColor_error by blast
  have err: "e = TypeError"
    if "appendHighlightedRunsFromHtml v [] (themeGetColor h) (appendCodeTextRuns h) d = Inl e" for v d e
    using that unfolding appendHighlightedRunsFromHtml_def by (rule scanHtml_error [OF gc])
  have 2: "(\<exists>rs. getHighlightedRunsForCode h hljs None code language = Inr rs) \<or>
      getHighlightedRunsForCode h hljs None code language = Inl TypeError"
  proof (cases "getHighlightedRunsForCode h hljs None code language")
    case (Inr rs)
    then show ?thesis by simp
  next
    case (Inl e)
    then have "e = TypeError"
      using err
      by (auto simp: getHighlightedRunsForCode_def Let_def split: option.splits sum.splits if_splits)
    with Inl show ?thesis by simp
  qed
  have 3: "\<exists>lines. (\<forall>l \<in> set lines. 10 \<notin> set l) \<and> joinLines lines = t \<and>
      appendCodeTextRuns h t rs0 color = rs0 @ specLineRuns h (appliedColor h color) lines"
    using splitLines_no_newline [of "[]" t] splitLines_join [of "[]" t] appendCodeTextRuns_spec [of h t rs0 color]
    by (intro exI [of _ "splitLines [] t"]) simp
  from 1 2 3 show ?thesis
    by (auto simp: newlineFree_def list_all_iff)
qed

theorem buildRuns_no_newline_witness:
  "getHighlightedRunsForCode (createCodeHighlighter None)
       \<lparr>getLanguage = (\<lambda>l. True),
        highlight = (\<lambda>c l. Inr (js ''<span class='' @ [dquote] @ js ''hljs-keyword'' @ [dquote]
                                  @ js ''>if</span><br/>x&#10;y''))\<rparr>
       None (js ''if'' @ [10] @ js ''x'' @ [10] @ js ''y'') (Some (js ''js''))
     = Inr [codeRun (createCodeHighlighter None) (js ''if'') (js ''24292E''), breakRun,
            codeRun (createCodeHighlighter None) (js ''x'') (js ''24292E''), breakRun,
            codeRun (createCodeHighlighter None) (js ''y'') (js ''24292E'')] \<and>
   list_all (\<lambda>r. 10 \<notin> set (run_text r))
     [codeRun (createCodeHighlighter None) (js ''if'') (js ''24292E''), breakRun,
      codeRun (createCodeHighlighter None) (js ''x'') (js ''24292E''), breakRun,
      codeRun (createCodeHighlighter None) (js ''y'') (js ''24292E'')]"
proof -
  have ev: "getHighlightedRunsForCode (createCodeHighlighter None)
       \<lparr>getLanguage = (\<lambda>l. True),
        highlight = (\<lambda>c l. Inr (js ''<span class='' @ [dquote] @ js ''hljs-keyword'' @ [dquote]
                                  @ js ''>if</span><br/>x&#10;y''))\<rparr>
       None (js ''if'' @ [10] @ js ''x'' @ [10] @ js ''y'') (Some (js ''js''))
     = Inr [codeRun (createCodeHighlighter None) (js ''if'') (js ''24292E''), breakRun,
            codeRun (createCodeHighlighter None) (js ''x'') (js ''24292E''), breakRun,
            codeRun (createCodeHighlighter None) (js ''y'') (js ''24292E'')]"
    by (simp add: runs_eval highlight_eval)
  show ?thesis
    using buildRuns_no_newline [of "createCodeHighlighter None"
        "\<lparr>getLanguage = (\<lambda>l. True),
        highlight = (\<lambda>c l. Inr (js ''<span class='' @ [dquote] @ js ''hljs-keyword'' @ [dquote]
                                  @ js ''>if</span><br/>x&#10;y''))\<rparr>"
        None "js ''if'' @ [10] @ js ''x'' @ [10] @ js ''y''" "Some (js ''js'')"
        "[codeRun (createCodeHighlighter None) (js ''if'') (js ''24292E''), breakRun,
            codeRun (createCodeHighlighter None) (js ''x'') (js ''24292E''), breakRun,
            codeRun (createCodeHighlighter None) (js ''y'') (js ''24292E'')]"] ev
    unfolding list_all_iff by blast
qed

end
